theory Spec2Isabelle
  imports Complex_Main "HOL-Library.Sublist"
begin

section \<open>Vibe Navigator: strings, exceptions and JSON text\<close>

text \<open>
  The program is Python. A Python \<open>str\<close> is a sequence of Unicode code points, and that is
  what \<open>len\<close>, slicing, the JSON codec and SQLite's \<open>LIKE\<close> count, so a string is modelled as
  a list of code points (\<open>ord\<close> of each character). Python keeps every code point from
  \<open>0\<close> to \<open>0x10FFFF\<close>, and a \<open>str\<close> may
  hold surrogate code points (\<open>0xD800\<close> to \<open>0xDFFF\<close>) on their own.
  Console output (\<open>print\<close>) is not part of the model. Integers are Python's unbounded
  integers; an integer bound to a parameter of an SQL statement has to fit SQLite's signed
  64-bit \<open>INTEGER\<close>.
\<close>

type_synonym ustr = "int list"

definition u :: "string \<Rightarrow> ustr" where
  "u s = map of_char s"

definition valid_str :: "ustr \<Rightarrow> bool" where
  "valid_str s = list_all (\<lambda>c. 0 \<le> c \<and> c < 0x110000) s"

definition is_high_surrogate :: "int \<Rightarrow> bool" where
  "is_high_surrogate c = (0xD800 \<le> c \<and> c \<le> 0xDBFF)"

definition is_low_surrogate :: "int \<Rightarrow> bool" where
  "is_low_surrogate c = (0xDC00 \<le> c \<and> c \<le> 0xDFFF)"

text \<open>
  Every exception of the model is an instance of Python's \<open>Exception\<close>, which is what the
  \<open>except Exception\<close> clauses of the program catch. It carries its class name and the text
  \<open>str(e)\<close>; the texts of exceptions raised by library code are abbreviated.
\<close>

datatype exn = Raised (exn_class: string) (exn_text: ustr)

text \<open>Truthiness of an \<open>Optional[str]\<close>: \<open>None\<close> and the empty string are false.\<close>

fun truthy :: "ustr option \<Rightarrow> bool" where
  "truthy None = False"
| "truthy (Some s) = (s \<noteq> [])"

text \<open>\<open>sep.join(parts)\<close>.\<close>

fun join :: "ustr \<Rightarrow> ustr list \<Rightarrow> ustr" where
  "join sep [] = []"
| "join sep [x] = x"
| "join sep (x # y # ys) = x @ sep @ join sep (y # ys)"

subsection \<open>JSON values\<close>

text \<open>
  The values \<open>json.loads\<close> produces: \<open>None\<close>, \<open>bool\<close>, \<open>int\<close>, \<open>float\<close>, \<open>str\<close>, \<open>list\<close> and
  \<open>dict\<close> with string keys (insertion ordered, keys distinct). Floating point
  arithmetic is not modelled: a float is kept as the literal it was read from, and the two
  texts made of the double that literal denotes are parameters, the one \<open>json.dumps\<close>
  writes for it and the one SQLite stores for it in a \<open>TEXT\<close> column. Both are ASCII, hence
  of type \<open>string\<close>.
\<close>

datatype json =
    JNull
  | JBool bool
  | JInt int
  | JFloat ustr
  | JStr ustr
  | JArr "json list"
  | JObj "(ustr \<times> json) list"

text \<open>\<open>d[k] = v\<close> on an insertion-ordered dict: an existing key keeps its position.\<close>

fun dict_set :: "(ustr \<times> json) list \<Rightarrow> ustr \<Rightarrow> json \<Rightarrow> (ustr \<times> json) list" where
  "dict_set [] k v = [(k, v)]"
| "dict_set ((k', v') # d) k v = (if k' = k then (k, v) # d else (k', v') # dict_set d k v)"

text \<open>\<open>dict(pairs)\<close>: a later pair with the same key overrides the earlier value.\<close>

definition dict_of_pairs :: "(ustr \<times> json) list \<Rightarrow> (ustr \<times> json) list" where
  "dict_of_pairs ps = foldl (\<lambda>d (k, v). dict_set d k v) [] ps"

text \<open>\<open>d.get(k, default)\<close>.\<close>

definition dict_get :: "(ustr \<times> json) list \<Rightarrow> ustr \<Rightarrow> json \<Rightarrow> json" where
  "dict_get d k dflt = (case map_of d k of None \<Rightarrow> dflt | Some v \<Rightarrow> v)"

subsection \<open>\<open>json.dumps\<close>\<close>

text \<open>
  The encoder with its defaults: \<open>ensure_ascii=True\<close>, separators \<open>", "\<close> and \<open>": "\<close>.
  A character outside \<open>' '..'~'\<close>, a quote and a backslash are escaped; a code point from
  \<open>0x10000\<close> on is written as a surrogate pair
  \<open>s1 = 0xd800 | ((n >> 10) & 0x3ff)\<close>, \<open>s2 = 0xdc00 | (n & 0x3ff)\<close> with \<open>n = c - 0x10000\<close>
  (on these ranges the shifts and masks are \<open>div\<close> and \<open>mod\<close>, and \<open>|\<close> adds).
  A float is written with \<open>float.__repr__\<close>, or as \<open>NaN\<close>, \<open>Infinity\<close>, \<open>-Infinity\<close>:
  \<open>float_repr\<close> gives that text for the literal the float was read from (\<open>100.0\<close> for
  \<open>1e2\<close>, \<open>0.1\<close> for \<open>0.10\<close>).
\<close>

definition hex_digit :: "int \<Rightarrow> int" where
  "hex_digit d = (if d < 10 then 48 + d else 87 + d)"

definition hex4 :: "int \<Rightarrow> ustr" where
  "hex4 n = [hex_digit (n div 4096 mod 16), hex_digit (n div 256 mod 16),
             hex_digit (n div 16 mod 16), hex_digit (n mod 16)]"

definition u_escape :: "int \<Rightarrow> ustr" where
  "u_escape n = [92, 117] @ hex4 n"

definition escape_char :: "int \<Rightarrow> ustr" where
  "escape_char c =
     (if c = 34 then [92, 34]
      else if c = 92 then [92, 92]
      else if c = 10 then [92, 110]
      else if c = 13 then [92, 114]
      else if c = 9 then [92, 116]
      else if c = 8 then [92, 98]
      else if c = 12 then [92, 102]
      else if 32 \<le> c \<and> c \<le> 126 then [c]
      else if c < 0x10000 then u_escape c
      else u_escape (0xD800 + ((c - 0x10000) div 0x400) mod 0x400)
           @ u_escape (0xDC00 + (c - 0x10000) mod 0x400))"

definition encode_basestring_ascii :: "ustr \<Rightarrow> ustr" where
  "encode_basestring_ascii s = [34] @ concat (map escape_char s) @ [34]"

fun dec_digits :: "nat \<Rightarrow> ustr" where
  "dec_digits n = (if n < 10 then [48 + int n] else dec_digits (n div 10) @ [48 + int (n mod 10)])"

declare dec_digits.simps [simp del]

definition str_of_int :: "int \<Rightarrow> ustr" where
  "str_of_int i = (if i < 0 then 45 # dec_digits (nat (- i)) else dec_digits (nat i))"

fun json_dumps :: "(ustr \<Rightarrow> string) \<Rightarrow> json \<Rightarrow> ustr"
  and dumps_items :: "(ustr \<Rightarrow> string) \<Rightarrow> json list \<Rightarrow> ustr"
  and dumps_members :: "(ustr \<Rightarrow> string) \<Rightarrow> (ustr \<times> json) list \<Rightarrow> ustr" where
  "json_dumps float_repr JNull = u ''null''"
| "json_dumps float_repr (JBool b) = (if b then u ''true'' else u ''false'')"
| "json_dumps float_repr (JInt i) = str_of_int i"
| "json_dumps float_repr (JFloat l) = u (float_repr l)"
| "json_dumps float_repr (JStr s) = encode_basestring_ascii s"
| "json_dumps float_repr (JArr vs) = [91] @ dumps_items float_repr vs @ [93]"
| "json_dumps float_repr (JObj kvs) = [123] @ dumps_members float_repr kvs @ [125]"
| "dumps_items float_repr [] = []"
| "dumps_items float_repr [v] = json_dumps float_repr v"
| "dumps_items float_repr (v # w # vs) =
     json_dumps float_repr v @ [44, 32] @ dumps_items float_repr (w # vs)"
| "dumps_members float_repr [] = []"
| "dumps_members float_repr [(k, v)] =
     encode_basestring_ascii k @ [58, 32] @ json_dumps float_repr v"
| "dumps_members float_repr ((k, v) # kv # kvs) =
     encode_basestring_ascii k @ [58, 32] @ json_dumps float_repr v @ [44, 32]
     @ dumps_members float_repr (kv # kvs)"

subsection \<open>\<open>json.loads\<close>\<close>

text \<open>
  The decoder, after CPython's scanner: whitespace is space, tab, line feed and carriage
  return; a string may not hold a raw control character; a \<open>u\<close> escape takes four
  hexadecimal digits, and a high surrogate escape directly followed by a low surrogate escape is joined
  into one code point; a number with a fraction or an exponent, \<open>NaN\<close>, \<open>Infinity\<close> and
  \<open>-Infinity\<close> are floats. Every failure is a \<open>JSONDecodeError\<close>. The interpreter's resource
  limits (recursion depth, digits of an \<open>int\<close>) are not modelled.
\<close>

definition decode_error :: "string \<Rightarrow> exn" where
  "decode_error msg = Raised ''JSONDecodeError'' (u msg)"

definition is_ws :: "int \<Rightarrow> bool" where
  "is_ws c = (c = 32 \<or> c = 9 \<or> c = 10 \<or> c = 13)"

definition skip_ws :: "ustr \<Rightarrow> ustr" where
  "skip_ws cs = dropWhile is_ws cs"

definition is_digit :: "int \<Rightarrow> bool" where
  "is_digit c = (48 \<le> c \<and> c \<le> 57)"

definition hex_val :: "int \<Rightarrow> int option" where
  "hex_val c =
     (if 48 \<le> c \<and> c \<le> 57 then Some (c - 48)
      else if 97 \<le> c \<and> c \<le> 102 then Some (c - 87)
      else if 65 \<le> c \<and> c \<le> 70 then Some (c - 55)
      else None)"

fun decode_uXXXX :: "ustr \<Rightarrow> int option" where
  "decode_uXXXX [a, b, c, d] =
     (case (hex_val a, hex_val b, hex_val c, hex_val d) of
        (Some x, Some y, Some z, Some w) \<Rightarrow> Some (((x * 16 + y) * 16 + z) * 16 + w)
      | _ \<Rightarrow> None)"
| "decode_uXXXX _ = None"

definition backslash :: "int \<Rightarrow> int option" where
  "backslash e =
     (if e = 34 then Some 34
      else if e = 92 then Some 92
      else if e = 47 then Some 47
      else if e = 98 then Some 8
      else if e = 102 then Some 12
      else if e = 110 then Some 10
      else if e = 114 then Some 13
      else if e = 116 then Some 9
      else None)"

fun prepend :: "int \<Rightarrow> exn + (ustr \<times> ustr) \<Rightarrow> exn + (ustr \<times> ustr)" where
  "prepend c (Inl e) = Inl e"
| "prepend c (Inr (s, rest)) = Inr (c # s, rest)"

text \<open>
  \<open>scanstring\<close> reads a string from just after its opening quote and returns it with the
  text after the closing quote.
\<close>

function scanstring :: "ustr \<Rightarrow> exn + (ustr \<times> ustr)" where
  "scanstring [] = Inl (decode_error ''Unterminated string'')"
| "scanstring (c # cs) =
     (if c = 34 then Inr ([], cs)
      else if c = 92 then
        (case cs of
           [] \<Rightarrow> Inl (decode_error ''Unterminated string'')
         | e # es \<Rightarrow>
             if e = 117 then
               (case decode_uXXXX (take 4 es) of
                  None \<Rightarrow> Inl (decode_error ''Invalid uXXXX escape'')
                | Some uni \<Rightarrow>
                    if is_high_surrogate uni \<and> take 2 (drop 4 es) = [92, 117] then
                      (case decode_uXXXX (take 4 (drop 6 es)) of
                         None \<Rightarrow> Inl (decode_error ''Invalid uXXXX escape'')
                       | Some uni2 \<Rightarrow>
                           if is_low_surrogate uni2
                           then prepend (0x10000 + ((uni - 0xD800) * 0x400 + (uni2 - 0xDC00)))
                                  (scanstring (drop 10 es))
                           else prepend uni (scanstring (drop 4 es)))
                    else prepend uni (scanstring (drop 4 es)))
             else
               (case backslash e of
                  None \<Rightarrow> Inl (decode_error ''Invalid escape'')
                | Some ch \<Rightarrow> prepend ch (scanstring es)))
      else if c < 32 then Inl (decode_error ''Invalid control character'')
      else prepend c (scanstring cs))"
  by pat_completeness auto
termination
  by (relation "measure length") auto

declare scanstring.simps(2) [simp del]

text \<open>
  A number is an optional minus sign and an integer part (\<open>0\<close>, or digits that do not
  start with \<open>0\<close>), then an optional fraction (a dot and digits) and an optional exponent
  (\<open>e\<close> or \<open>E\<close>, an optional sign, digits), matched as a regular expression does: a
  fraction or an exponent that does not complete is left unread.
\<close>

definition int_of_digits :: "ustr \<Rightarrow> int" where
  "int_of_digits ds = foldl (\<lambda>a d. 10 * a + (d - 48)) 0 ds"

definition match_frac :: "ustr \<Rightarrow> ustr \<times> ustr" where
  "match_frac cs =
     (case cs of
        c # fs \<Rightarrow>
          if c = 46 \<and> takeWhile is_digit fs \<noteq> []
          then (46 # takeWhile is_digit fs, dropWhile is_digit fs)
          else ([], cs)
      | [] \<Rightarrow> ([], cs))"

definition match_exp :: "ustr \<Rightarrow> ustr \<times> ustr" where
  "match_exp cs =
     (case cs of
        c # es \<Rightarrow>
          if c = 101 \<or> c = 69 then
            (let sign = (case es of s # _ \<Rightarrow> if s = 45 \<or> s = 43 then [s] else [] | [] \<Rightarrow> []);
                 ds = drop (length sign) es
             in if takeWhile is_digit ds \<noteq> []
                then (c # sign @ takeWhile is_digit ds, dropWhile is_digit ds)
                else ([], cs))
          else ([], cs)
      | [] \<Rightarrow> ([], cs))"

definition match_integer :: "ustr \<Rightarrow> (ustr \<times> ustr) option" where
  "match_integer cs =
     (let sign = (case cs of c # _ \<Rightarrow> if c = 45 then [c] else [] | [] \<Rightarrow> []);
          ds = drop (length sign) cs
      in case ds of
           [] \<Rightarrow> None
         | d # ds' \<Rightarrow>
             if d = 48 then Some (sign @ [d], ds')
             else if is_digit d
             then Some (sign @ d # takeWhile is_digit ds', dropWhile is_digit ds')
             else None)"

definition match_number :: "ustr \<Rightarrow> (json \<times> ustr) option" where
  "match_number cs =
     (case match_integer cs of
        None \<Rightarrow> None
      | Some (integer, r1) \<Rightarrow>
          (let (frac, r2) = match_frac r1; (ex, r3) = match_exp r2
           in if frac \<noteq> [] \<or> ex \<noteq> [] then Some (JFloat (integer @ frac @ ex), r3)
              else Some (JInt (case integer of
                                 c # ds \<Rightarrow> if c = 45 then - int_of_digits ds
                                           else int_of_digits (c # ds)
                               | [] \<Rightarrow> 0), r3)))"

text \<open>The scalars other than strings: \<open>null\<close>, \<open>true\<close>, \<open>false\<close>, numbers and the float constants.\<close>

definition scan_scalar :: "ustr \<Rightarrow> exn + (json \<times> ustr)" where
  "scan_scalar cs =
     (if take 4 cs = u ''null'' then Inr (JNull, drop 4 cs)
      else if take 4 cs = u ''true'' then Inr (JBool True, drop 4 cs)
      else if take 5 cs = u ''false'' then Inr (JBool False, drop 5 cs)
      else case match_number cs of
             Some r \<Rightarrow> Inr r
           | None \<Rightarrow>
               if take 3 cs = u ''NaN'' then Inr (JFloat (u ''NaN''), drop 3 cs)
               else if take 8 cs = u ''Infinity'' then Inr (JFloat (u ''Infinity''), drop 8 cs)
               else if take 9 cs = u ''-Infinity'' then Inr (JFloat (u ''-Infinity''), drop 9 cs)
               else Inl (decode_error ''Expecting value''))"

text \<open>
  The recursive scanner. Its loops and its recursion run on fuel, one unit for each value,
  array element and object member; \<open>json_loads\<close> gives it more than the text can use.
  \<open>scan_array\<close> starts at an element, \<open>scan_object\<close> just after the opening quote of a key.
\<close>

fun scan_once :: "nat \<Rightarrow> ustr \<Rightarrow> exn + (json \<times> ustr)"
  and scan_array :: "nat \<Rightarrow> json list \<Rightarrow> ustr \<Rightarrow> exn + (json \<times> ustr)"
  and scan_object :: "nat \<Rightarrow> (ustr \<times> json) list \<Rightarrow> ustr \<Rightarrow> exn + (json \<times> ustr)" where
  "scan_once 0 cs = Inl (Raised ''OutOfFuel'' [])"
| "scan_once (Suc n) [] = Inl (decode_error ''Expecting value'')"
| "scan_once (Suc n) (c # cs) =
     (if c = 34 then
        (case scanstring cs of Inl e \<Rightarrow> Inl e | Inr (s, rest) \<Rightarrow> Inr (JStr s, rest))
      else if c = 123 then
        (case skip_ws cs of
           [] \<Rightarrow> Inl (decode_error ''Expecting property name enclosed in double quotes'')
         | d # rest \<Rightarrow>
             if d = 125 then Inr (JObj [], rest)
             else if d = 34 then scan_object n [] rest
             else Inl (decode_error ''Expecting property name enclosed in double quotes''))
      else if c = 91 then
        (case skip_ws cs of
           [] \<Rightarrow> Inl (decode_error ''Expecting value'')
         | d # rest \<Rightarrow>
             if d = 93 then Inr (JArr [], rest) else scan_array n [] (d # rest))
      else scan_scalar (c # cs))"
| "scan_array 0 acc cs = Inl (Raised ''OutOfFuel'' [])"
| "scan_array (Suc n) acc cs =
     (case scan_once n cs of
        Inl e \<Rightarrow> Inl e
      | Inr (v, rest) \<Rightarrow>
          (case skip_ws rest of
             [] \<Rightarrow> Inl (decode_error ''Expecting , delimiter'')
           | d # rest' \<Rightarrow>
               if d = 93 then Inr (JArr (acc @ [v]), rest')
               else if d = 44 then scan_array n (acc @ [v]) (skip_ws rest')
               else Inl (decode_error ''Expecting , delimiter'')))"
| "scan_object 0 acc cs = Inl (Raised ''OutOfFuel'' [])"
| "scan_object (Suc n) acc cs =
     (case scanstring cs of
        Inl e \<Rightarrow> Inl e
      | Inr (k, r1) \<Rightarrow>
          (case skip_ws r1 of
             [] \<Rightarrow> Inl (decode_error ''Expecting : delimiter'')
           | c # r2 \<Rightarrow>
               if c \<noteq> 58 then Inl (decode_error ''Expecting : delimiter'')
               else
                 (case scan_once n (skip_ws r2) of
                    Inl e \<Rightarrow> Inl e
                  | Inr (v, r3) \<Rightarrow>
                      (case skip_ws r3 of
                         [] \<Rightarrow> Inl (decode_error ''Expecting , delimiter'')
                       | d # r4 \<Rightarrow>
                           if d = 125 then Inr (JObj (dict_of_pairs (acc @ [(k, v)])), r4)
                           else if d = 44 then
                             (case skip_ws r4 of
                                [] \<Rightarrow> Inl (decode_error
                                  ''Expecting property name enclosed in double quotes'')
                              | q # r5 \<Rightarrow>
                                  if q = 34 then scan_object n (acc @ [(k, v)]) r5
                                  else Inl (decode_error
                                    ''Expecting property name enclosed in double quotes''))
                           else Inl (decode_error ''Expecting , delimiter'')))))"

definition json_loads :: "ustr \<Rightarrow> exn + json" where
  "json_loads s =
     (if take 1 s = [0xFEFF] then Inl (decode_error ''Unexpected UTF-8 BOM'')
      else case scan_once (Suc (2 * length s)) (skip_ws s) of
             Inl e \<Rightarrow> Inl e
           | Inr (v, rest) \<Rightarrow>
               if skip_ws rest = [] then Inr v else Inl (decode_error ''Extra data''))"

section \<open>The Vibe Summarizer (\<open>ai_summarizer.py\<close>)\<close>

text \<open>
  The network is a parameter: \<open>acreate\<close> stands for \<open>openai.ChatCompletion.acreate\<close> and
  answers a request with an exception or with the \<open>content\<close> of each choice of the response.
  \<open>summarize_reviews\<close> returns the requests it sent together with its string. Its first
  argument is the interpreter's \<open>float_repr\<close>, which \<open>json.dumps\<close> reads.
\<close>

record chat_request =
  cr_model :: ustr
  cr_messages :: "(ustr \<times> ustr) list"
  cr_temperature :: real
  cr_max_tokens :: int

definition prompt :: "ustr \<Rightarrow> ustr" where
  "prompt reviews_text =
     [10] @ u ''    Based on the following user reviews, analyze the overall vibe of the place.''
     @ [10] @ u ''    Provide a summary that includes a short description, mood tags, and key themes.''
     @ [10, 10] @ u ''    Reviews:''
     @ [10] @ u ''    - '' @ reviews_text
     @ [10, 10] @ u ''    Please provide your response as a JSON object with the following keys: \"summary\", \"mood_tags\", \"key_themes\".''
     @ [10] @ u ''    - The \"summary\" should be a short, catchy description with 1-3 emojis.''
     @ [10] @ u ''    - The \"mood_tags\" should be a list of 3-5 relevant string tags (e.g., \"cozy\", \"lively\", \"quiet\").''
     @ [10] @ u ''    - The \"key_themes\" should be a list of 3-5 relevant string themes (e.g., \"good for dates\", \"great coffee\", \"noisy\").''
     @ [10] @ u ''    ''"

definition chat_request_of :: "ustr list \<Rightarrow> chat_request" where
  "chat_request_of reviews =
     \<lparr> cr_model = u ''gpt-3.5-turbo'',
       cr_messages =
         [(u ''system'', u ''You are a helpful assistant that analyzes customer reviews and summarizes the vibe of a place into a JSON format.''),
          (u ''user'', prompt (join ([10] @ u ''- '') reviews))],
       cr_temperature = 7 / 10,
       cr_max_tokens = 250 \<rparr>"

definition error_message :: "ustr \<Rightarrow> string \<Rightarrow> json" where
  "error_message summary theme =
     JObj [(u ''summary'', JStr summary),
           (u ''mood_tags'', JArr [JStr (u ''error'')]),
           (u ''key_themes'', JArr [JStr (u theme)])]"

definition summarize_reviews ::
  "(ustr \<Rightarrow> string) \<Rightarrow> ustr option \<Rightarrow> (chat_request \<Rightarrow> exn + ustr list) \<Rightarrow> ustr list
     \<Rightarrow> chat_request list \<times> ustr" where
  "summarize_reviews float_repr api_key acreate reviews =
     (if \<not> truthy api_key then
        ([], json_dumps float_repr (error_message
               (u ''AI Summarizer is not configured. Missing API Key.'') ''configuration''))
      else
        (let req = chat_request_of reviews in
         case acreate req of
           Inl e \<Rightarrow>
             ([req], json_dumps float_repr (error_message
                (u ''An error occurred while generating the AI summary: '' @ exn_text e)
                ''api_failure''))
         | Inr [] \<Rightarrow>
             ([req], json_dumps float_repr (error_message
                (u ''An error occurred while generating the AI summary: ''
                 @ u ''list index out of range'')
                ''api_failure''))
         | Inr (content # _) \<Rightarrow> ([req], content)))"

section \<open>The Review Store (\<open>init_db\<close> and the statements of \<open>main.py\<close>)\<close>

text \<open>
  The three tables of \<open>init_db\<close>, each a list of rows in insertion order, with the counter
  SQLite keeps for an \<open>AUTOINCREMENT\<close> key. The columns declared \<open>NOT NULL\<close> have no
  \<open>option\<close>. SQLite stores text as UTF-8, so binding a string that holds a surrogate raises
  \<open>UnicodeEncodeError\<close>, and binding an integer outside the signed 64-bit range raises
  \<open>OverflowError\<close>. Foreign keys are declared but SQLite does not enforce them unless
  asked to, and the program never asks. That an \<open>AUTOINCREMENT\<close> counter stops at
  \<open>2^63 - 1\<close> is not modelled: no run of the service makes that many rows.
\<close>

record place =
  p_id :: int
  p_name :: ustr
  p_city :: ustr
  p_category :: ustr
  p_address :: "ustr option"
  p_latitude :: "real option"
  p_longitude :: "real option"

record review =
  r_id :: int
  r_place_id :: int
  r_source :: ustr
  r_content :: ustr
  r_rating :: "real option"
  r_date :: "ustr option"

record vibe_row =
  v_id :: int
  v_place_id :: int
  v_summary :: ustr
  v_mood_tags :: ustr
  v_key_themes :: ustr

record database =
  places :: "place list"
  reviews :: "review list"
  vibe_summaries :: "vibe_row list"
  seq_places :: int
  seq_reviews :: int
  seq_vibe_summaries :: int

definition init_db :: database where
  "init_db = \<lparr> places = [], reviews = [], vibe_summaries = [],
               seq_places = 0, seq_reviews = 0, seq_vibe_summaries = 0 \<rparr>"

definition utf8_encodable :: "ustr \<Rightarrow> bool" where
  "utf8_encodable s = list_all (\<lambda>c. 0 \<le> c \<and> c < 0x110000 \<and> \<not> (0xD800 \<le> c \<and> c \<le> 0xDFFF)) s"

definition bind_str :: "ustr \<Rightarrow> exn + ustr" where
  "bind_str s = (if utf8_encodable s then Inr s
                 else Inl (Raised ''UnicodeEncodeError'' (u ''surrogates not allowed'')))"

definition fits_int64 :: "int \<Rightarrow> bool" where
  "fits_int64 i = (- 9223372036854775808 \<le> i \<and> i \<le> 9223372036854775807)"

definition bind_int :: "int \<Rightarrow> exn + int" where
  "bind_int i = (if fits_int64 i then Inr i
                 else Inl (Raised ''OverflowError''
                             (u ''Python int too large to convert to SQLite INTEGER'')))"

fun bind_opt_str :: "ustr option \<Rightarrow> exn + ustr option" where
  "bind_opt_str None = Inr None"
| "bind_opt_str (Some s) = map_sum id Some (bind_str s)"

text \<open>
  What a \<open>TEXT NOT NULL\<close> column stores for a value that came out of \<open>json.loads\<close>: a string
  as it is; a number converted to text (column affinity), an \<open>int\<close> if it fits 64 bits, a
  float as \<open>real_text\<close> gives the text SQLite makes of the double (\<open>1.5\<close> for the literal
  \<open>1.50\<close>); \<open>None\<close> violates the constraint, and so does the float \<open>NaN\<close>, which is bound as
  \<open>NULL\<close> (among the floats \<open>json.loads\<close> makes, only the literal \<open>NaN\<close> is one); a list or a
  dict cannot be bound at all.
\<close>

fun bind_text_not_null :: "(ustr \<Rightarrow> string) \<Rightarrow> json \<Rightarrow> exn + ustr" where
  "bind_text_not_null real_text (JStr s) = bind_str s"
| "bind_text_not_null real_text (JInt i) = map_sum id str_of_int (bind_int i)"
| "bind_text_not_null real_text (JBool b) = Inr (if b then u ''1'' else u ''0'')"
| "bind_text_not_null real_text (JFloat l) =
     (if l = u ''NaN'' then Inl (Raised ''IntegrityError'' (u ''NOT NULL constraint failed''))
      else Inr (u (real_text l)))"
| "bind_text_not_null real_text JNull =
     Inl (Raised ''IntegrityError'' (u ''NOT NULL constraint failed''))"
| "bind_text_not_null real_text (JArr vs) =
     Inl (Raised ''ProgrammingError'' (u ''type list is not supported''))"
| "bind_text_not_null real_text (JObj kvs) =
     Inl (Raised ''ProgrammingError'' (u ''type dict is not supported''))"

text \<open>A statement raises at its first failing step: the sequencing of fallible steps.\<close>

fun and_then :: "exn + 'a \<Rightarrow> ('a \<Rightarrow> exn + 'b) \<Rightarrow> exn + 'b" where
  "and_then (Inl e) f = Inl e"
| "and_then (Inr x) f = f x"

text \<open>\<open>INSERT INTO places (name, city, category, address, latitude, longitude)\<close>, with \<open>lastrowid\<close>.\<close>

definition insert_place ::
  "ustr \<Rightarrow> ustr \<Rightarrow> ustr \<Rightarrow> ustr option \<Rightarrow> real option \<Rightarrow> real option \<Rightarrow> database
     \<Rightarrow> exn + (database \<times> int)" where
  "insert_place name city category address latitude longitude db =
     and_then (bind_str name) (\<lambda>n.
     and_then (bind_str city) (\<lambda>c.
     and_then (bind_str category) (\<lambda>g.
     and_then (bind_opt_str address) (\<lambda>a.
       (let rowid = seq_places db + 1 in
        Inr (db \<lparr> places := places db @
                     [\<lparr> p_id = rowid, p_name = n, p_city = c, p_category = g,
                        p_address = a, p_latitude = latitude, p_longitude = longitude \<rparr>],
                   seq_places := rowid \<rparr>, rowid))))))"

text \<open>\<open>INSERT INTO reviews (place_id, source, content)\<close>.\<close>

definition insert_review :: "int \<Rightarrow> ustr \<Rightarrow> ustr \<Rightarrow> database \<Rightarrow> exn + database" where
  "insert_review place_id source content db =
     and_then (bind_int place_id) (\<lambda>pid.
     and_then (bind_str source) (\<lambda>src.
     and_then (bind_str content) (\<lambda>txt.
       (let rowid = seq_reviews db + 1 in
        Inr (db \<lparr> reviews := reviews db @
                     [\<lparr> r_id = rowid, r_place_id = pid, r_source = src,
                        r_content = txt, r_rating = None, r_date = None \<rparr>],
                   seq_reviews := rowid \<rparr>)))))"

text \<open>
  \<open>SELECT * FROM t WHERE ... = ?\<close> followed by \<open>fetchone()\<close>, the first matching row, or by
  \<open>fetchall()\<close>. The place id is bound first.
\<close>

definition select_place :: "database \<Rightarrow> int \<Rightarrow> exn + place option" where
  "select_place db place_id =
     and_then (bind_int place_id) (\<lambda>pid. Inr (find (\<lambda>p. p_id p = pid) (places db)))"

definition select_reviews :: "database \<Rightarrow> int \<Rightarrow> exn + review list" where
  "select_reviews db place_id =
     and_then (bind_int place_id) (\<lambda>pid. Inr (filter (\<lambda>r. r_place_id r = pid) (reviews db)))"

definition select_vibe :: "database \<Rightarrow> int \<Rightarrow> exn + vibe_row option" where
  "select_vibe db place_id =
     and_then (bind_int place_id) (\<lambda>pid. Inr (find (\<lambda>v. v_place_id v = pid) (vibe_summaries db)))"

text \<open>\<open>INSERT INTO vibe_summaries (place_id, summary, mood_tags, key_themes)\<close>; \<open>place_id\<close> is \<open>UNIQUE\<close>.\<close>

definition insert_vibe ::
  "(ustr \<Rightarrow> string) \<Rightarrow> int \<Rightarrow> json \<Rightarrow> ustr \<Rightarrow> ustr \<Rightarrow> database \<Rightarrow> exn + database" where
  "insert_vibe real_text place_id summary mood_tags key_themes db =
     and_then (bind_int place_id) (\<lambda>pid.
     and_then (bind_text_not_null real_text summary) (\<lambda>s.
     and_then (bind_str mood_tags) (\<lambda>m.
     and_then (bind_str key_themes) (\<lambda>k.
       if list_ex (\<lambda>v. v_place_id v = pid) (vibe_summaries db)
       then Inl (Raised ''IntegrityError''
                   (u ''UNIQUE constraint failed: vibe_summaries.place_id''))
       else
         (let rowid = seq_vibe_summaries db + 1 in
          Inr (db \<lparr> vibe_summaries := vibe_summaries db @
                       [\<lparr> v_id = rowid, v_place_id = pid, v_summary = s,
                          v_mood_tags = m, v_key_themes = k \<rparr>],
                     seq_vibe_summaries := rowid \<rparr>))))))"

text \<open>\<open>UPDATE vibe_summaries SET summary = ?, mood_tags = ?, key_themes = ? WHERE place_id = ?\<close>.\<close>

definition update_vibe ::
  "(ustr \<Rightarrow> string) \<Rightarrow> int \<Rightarrow> json \<Rightarrow> ustr \<Rightarrow> ustr \<Rightarrow> database \<Rightarrow> exn + database" where
  "update_vibe real_text place_id summary mood_tags key_themes db =
     and_then (bind_text_not_null real_text summary) (\<lambda>s.
     and_then (bind_str mood_tags) (\<lambda>m.
     and_then (bind_str key_themes) (\<lambda>k.
     and_then (bind_int place_id) (\<lambda>pid.
       Inr (db \<lparr> vibe_summaries :=
                   map (\<lambda>v. if v_place_id v = pid
                             then v \<lparr> v_summary := s, v_mood_tags := m, v_key_themes := k \<rparr>
                             else v)
                       (vibe_summaries db) \<rparr>)))))"

section \<open>The background task (\<open>scrape_and_store_reviews\<close>)\<close>

text \<open>
  A call by name resolves the name in the globals of module \<open>main\<close> when the call runs, so the
  globals the task uses are a parameter: the two extractors it calls (\<open>None\<close> where the name is
  not bound, and then the call raises \<open>NameError\<close>), and what the Summarizer reads, the API
  key and the network. With them come the two texts of a float, \<open>py_float_repr\<close> of the
  interpreter and \<open>sqlite_real_text\<close> of SQLite. \<open>main.py\<close> imports \<open>scrape_gmaps\<close> and
  \<open>scrape_reddit\<close> and defines neither \<open>scrape_google_maps_reviews\<close> nor
  \<open>scrape_tripadvisor_reviews\<close>: \<open>shipped\<close> is the module as it is in the repository.
\<close>

record env =
  scrape_google_maps_reviews :: "(ustr \<Rightarrow> exn + ustr list) option"
  scrape_tripadvisor_reviews :: "(ustr \<Rightarrow> exn + ustr list) option"
  openai_api_key :: "ustr option"
  openai_acreate :: "chat_request \<Rightarrow> exn + ustr list"
  py_float_repr :: "ustr \<Rightarrow> string"
  sqlite_real_text :: "ustr \<Rightarrow> string"

definition shipped ::
  "ustr option \<Rightarrow> (chat_request \<Rightarrow> exn + ustr list) \<Rightarrow> (ustr \<Rightarrow> string) \<Rightarrow> (ustr \<Rightarrow> string)
     \<Rightarrow> env" where
  "shipped key net float_repr real_text =
     \<lparr> scrape_google_maps_reviews = None, scrape_tripadvisor_reviews = None,
       openai_api_key = key, openai_acreate = net,
       py_float_repr = float_repr, sqlite_real_text = real_text \<rparr>"

definition call_extractor ::
  "string \<Rightarrow> (ustr \<Rightarrow> exn + ustr list) option \<Rightarrow> ustr \<Rightarrow> exn + ustr list" where
  "call_extractor name binding url =
     (case binding of
        None \<Rightarrow> Inl (Raised ''NameError'' (u name))
      | Some f \<Rightarrow> f url)"

text \<open>
  The \<open>for review_text in ...\<close> loop: insert, then append to \<open>all_reviews\<close>. An insert that
  raises ends the loop; the rows inserted before it stay and are committed with the rest.
\<close>

fun insert_reviews ::
  "int \<Rightarrow> ustr \<Rightarrow> ustr list \<Rightarrow> database \<times> ustr list \<Rightarrow> (database \<times> ustr list) \<times> exn option" where
  "insert_reviews place_id source [] (db, all_reviews) = ((db, all_reviews), None)"
| "insert_reviews place_id source (review_text # rest) (db, all_reviews) =
     (case insert_review place_id source review_text db of
        Inl e \<Rightarrow> ((db, all_reviews), Some e)
      | Inr db' \<Rightarrow> insert_reviews place_id source rest (db', all_reviews @ [review_text]))"

text \<open>
  One \<open>if url: try: ... except Exception as e: print(...)\<close> block. The state is the database,
  \<open>all_reviews\<close> and the exceptions caught so far.
\<close>

fun scrape_source ::
  "string \<Rightarrow> (ustr \<Rightarrow> exn + ustr list) option \<Rightarrow> ustr \<Rightarrow> int \<Rightarrow> ustr option
     \<Rightarrow> database \<times> ustr list \<times> exn list \<Rightarrow> database \<times> ustr list \<times> exn list" where
  "scrape_source name binding source place_id None st = st"
| "scrape_source name binding source place_id (Some url) (db, all_reviews, caught) =
     (if url = [] then (db, all_reviews, caught)
      else
        (case call_extractor name binding url of
           Inl e \<Rightarrow> (db, all_reviews, caught @ [e])
         | Inr texts \<Rightarrow>
             (case insert_reviews place_id source texts (db, all_reviews) of
                ((db', all'), None) \<Rightarrow> (db', all', caught)
              | ((db', all'), Some e) \<Rightarrow> (db', all', caught @ [e]))))"

definition scrape_phase ::
  "env \<Rightarrow> database \<Rightarrow> int \<Rightarrow> ustr option \<Rightarrow> ustr option \<Rightarrow> database \<times> ustr list \<times> exn list" where
  "scrape_phase g db place_id google_maps_url tripadvisor_url =
     scrape_source ''scrape_tripadvisor_reviews'' (scrape_tripadvisor_reviews g)
       (u ''TripAdvisor'') place_id tripadvisor_url
       (scrape_source ''scrape_google_maps_reviews'' (scrape_google_maps_reviews g)
          (u ''Google Maps'') place_id google_maps_url (db, [], []))"

text \<open>\<open>summary_data.get\<close> exists only on a dict.\<close>

fun as_dict :: "json \<Rightarrow> exn + (ustr \<times> json) list" where
  "as_dict (JObj d) = Inr d"
| "as_dict _ = Inl (Raised ''AttributeError'' (u ''object has no attribute get''))"

text \<open>
  Lines 98 to 118: parse the Summarizer's string, take the three fields with their defaults,
  serialize the two lists, and update the place's row if there is one, insert it otherwise.
\<close>

definition upsert_vibe_summary :: "env \<Rightarrow> ustr \<Rightarrow> int \<Rightarrow> database \<Rightarrow> exn + database" where
  "upsert_vibe_summary g summary_json place_id db =
     and_then (json_loads summary_json) (\<lambda>summary_data.
     and_then (as_dict summary_data) (\<lambda>d.
       (let summary_text = dict_get d (u ''summary'') (JStr (u ''No summary provided.''));
            mood_tags_json = json_dumps (py_float_repr g) (dict_get d (u ''mood_tags'') (JArr []));
            key_themes_json = json_dumps (py_float_repr g) (dict_get d (u ''key_themes'') (JArr []))
        in and_then (select_vibe db place_id) (\<lambda>existing.
             case existing of
               Some row \<Rightarrow>
                 update_vibe (sqlite_real_text g) place_id summary_text mood_tags_json
                   key_themes_json db
             | None \<Rightarrow>
                 insert_vibe (sqlite_real_text g) place_id summary_text mood_tags_json
                   key_themes_json db))))"

text \<open>
  A run gives the database it leaves, the requests it sent to the network, the exceptions
  it caught (each is printed and dropped) and what it returns: \<open>(len(all_reviews), True)\<close>,
  \<open>(0, False)\<close>, or \<open>None\<close> when the outer \<open>except\<close> caught.
\<close>

record run =
  run_db :: database
  run_requests :: "chat_request list"
  run_caught :: "exn list"
  run_return :: "(nat \<times> bool) option"

definition scrape_and_store_reviews ::
  "env \<Rightarrow> database \<Rightarrow> int \<Rightarrow> ustr \<Rightarrow> ustr option \<Rightarrow> ustr option \<Rightarrow> run" where
  "scrape_and_store_reviews g db place_id place_name google_maps_url tripadvisor_url =
     (case scrape_phase g db place_id google_maps_url tripadvisor_url of
        (db1, all_reviews, caught) \<Rightarrow>
          if all_reviews \<noteq> [] then
            (case summarize_reviews (py_float_repr g) (openai_api_key g) (openai_acreate g)
                    all_reviews of
               (requests, summary_json) \<Rightarrow>
                 (case upsert_vibe_summary g summary_json place_id db1 of
                    Inl e \<Rightarrow>
                      \<lparr> run_db = db1, run_requests = requests,
                        run_caught = caught @ [e], run_return = None \<rparr>
                  | Inr db2 \<Rightarrow>
                      \<lparr> run_db = db2, run_requests = requests,
                        run_caught = caught, run_return = Some (length all_reviews, True) \<rparr>))
          else
            \<lparr> run_db = db1, run_requests = [], run_caught = caught,
              run_return = Some (0, False) \<rparr>)"

section \<open>The endpoints of \<open>main.py\<close>\<close>

text \<open>
  A handler answers with a value or raises \<open>HTTPException(status_code, detail)\<close>; an
  exception it does not handle is answered by the framework with status 500.
  The background tasks a handler adds run after its response; a task is the argument tuple
  of \<open>add_task\<close>: place id, place name and the two URLs.
\<close>

datatype 'a response = Ok 'a | HTTPException int ustr

definition internal_server_error :: "'a response" where
  "internal_server_error = HTTPException 500 (u ''Internal Server Error'')"

type_synonym task = "int \<times> ustr \<times> ustr option \<times> ustr option"

record scrape_request =
  sr_place_id :: int
  sr_place_name :: ustr
  sr_google_maps_url :: "ustr option"
  sr_tripadvisor_url :: "ustr option"

record scrape_response =
  success :: bool
  message :: ustr
  reviews_scraped :: int
  summary_generated :: bool

record place_body =
  b_name :: ustr
  b_city :: ustr
  b_category :: ustr
  b_address :: "ustr option"
  b_latitude :: "real option"
  b_longitude :: "real option"

record create_place_and_scrape_request = place_body +
  b_google_maps_url :: "ustr option"
  b_tripadvisor_url :: "ustr option"

record vibe_summary =
  vs_id :: "int option"
  vs_place_id :: int
  vs_summary :: ustr
  vs_mood_tags :: "ustr list"
  vs_key_themes :: "ustr list"

text \<open>\<open>POST /scrape/reviews\<close>.\<close>

definition scrape_reviews ::
  "scrape_request \<Rightarrow> database \<Rightarrow> task list \<Rightarrow> scrape_response response \<times> task list" where
  "scrape_reviews request db background_tasks =
     (case select_place db (sr_place_id request) of
        Inl e \<Rightarrow> (internal_server_error, background_tasks)
      | Inr None \<Rightarrow> (HTTPException 404 (u ''Place not found''), background_tasks)
      | Inr (Some place) \<Rightarrow>
          (Ok \<lparr> success = True,
                message = u ''Started scraping reviews for '' @ sr_place_name request
                          @ u ''. This runs in the background.'',
                reviews_scraped = 0, summary_generated = False \<rparr>,
           background_tasks @
             [(sr_place_id request, sr_place_name request,
               sr_google_maps_url request, sr_tripadvisor_url request)]))"

text \<open>\<open>POST /scrape/place-and-reviews\<close>.\<close>

definition create_place_and_scrape_reviews ::
  "create_place_and_scrape_request \<Rightarrow> database \<Rightarrow> task list
     \<Rightarrow> scrape_response response \<times> database \<times> task list" where
  "create_place_and_scrape_reviews request db background_tasks =
     (case insert_place (b_name request) (b_city request) (b_category request)
             (b_address request) (b_latitude request) (b_longitude request) db of
        Inl e \<Rightarrow>
          (HTTPException 500 (u ''Error creating place: '' @ exn_text e), db, background_tasks)
      | Inr (db', place_id) \<Rightarrow>
          (Ok \<lparr> success = True,
                message = u ''Created place '' @ [39] @ b_name request @ [39] @ u '' with ID ''
                          @ str_of_int place_id @ u '' and started scraping reviews.'',
                reviews_scraped = 0, summary_generated = False \<rparr>,
           db',
           background_tasks @
             [(place_id, b_name request, b_google_maps_url request, b_tripadvisor_url request)]))"

text \<open>\<open>GET /places/\<close> with its optional filters.\<close>

definition get_places :: "database \<Rightarrow> ustr option \<Rightarrow> ustr option \<Rightarrow> place list" where
  "get_places db city category =
     filter (\<lambda>p. (truthy city \<longrightarrow> Some (p_city p) = city)
                \<and> (truthy category \<longrightarrow> Some (p_category p) = category))
            (places db)"

text \<open>\<open>POST /places/\<close>.\<close>

definition create_place :: "place_body \<Rightarrow> database \<Rightarrow> place response \<times> database" where
  "create_place body db =
     (case insert_place (b_name body) (b_city body) (b_category body)
             (b_address body) (b_latitude body) (b_longitude body) db of
        Inl e \<Rightarrow> (internal_server_error, db)
      | Inr (db', place_id) \<Rightarrow>
          (Ok \<lparr> p_id = place_id, p_name = b_name body, p_city = b_city body,
                p_category = b_category body, p_address = b_address body,
                p_latitude = b_latitude body, p_longitude = b_longitude body \<rparr>, db'))"

text \<open>\<open>GET /places/{place_id}\<close>.\<close>

definition get_place :: "database \<Rightarrow> int \<Rightarrow> place response" where
  "get_place db place_id =
     (case select_place db place_id of
        Inl e \<Rightarrow> internal_server_error
      | Inr None \<Rightarrow> HTTPException 404 (u ''Place not found'')
      | Inr (Some place) \<Rightarrow> Ok place)"

text \<open>\<open>GET /places/{place_id}/reviews\<close>.\<close>

definition get_reviews :: "database \<Rightarrow> int \<Rightarrow> review list response" where
  "get_reviews db place_id =
     (case select_reviews db place_id of
        Inl e \<Rightarrow> internal_server_error
      | Inr rows \<Rightarrow> Ok rows)"

text \<open>
  \<open>GET /places/{place_id}/vibe\<close>. The response model takes \<open>mood_tags\<close> and \<open>key_themes\<close>
  as lists of strings; anything else fails its validation, which the handler does not catch.
  The framework then writes the model it got as UTF-8 (\<open>render_vibe_summary\<close>), which fails
  on a surrogate code point: the tags come out of \<open>json.loads\<close> and may hold one.
\<close>

fun as_str :: "json \<Rightarrow> ustr option" where
  "as_str (JStr s) = Some s"
| "as_str _ = None"

fun as_str_list :: "json \<Rightarrow> ustr list option" where
  "as_str_list (JArr vs) =
     (if list_all (\<lambda>v. as_str v \<noteq> None) vs then Some (map (\<lambda>v. the (as_str v)) vs) else None)"
| "as_str_list _ = None"

definition render_vibe_summary :: "vibe_summary \<Rightarrow> vibe_summary response" where
  "render_vibe_summary r =
     (if utf8_encodable (vs_summary r) \<and> list_all utf8_encodable (vs_mood_tags r)
         \<and> list_all utf8_encodable (vs_key_themes r)
      then Ok r else internal_server_error)"

definition get_vibe_summary :: "database \<Rightarrow> int \<Rightarrow> vibe_summary response" where
  "get_vibe_summary db place_id =
     (case select_vibe db place_id of
        Inl e \<Rightarrow> internal_server_error
      | Inr None \<Rightarrow> HTTPException 404 (u ''Vibe summary not found. Scrape reviews first.'')
      | Inr (Some row) \<Rightarrow>
          (case (json_loads (v_mood_tags row), json_loads (v_key_themes row)) of
             (Inr mood_tags, Inr key_themes) \<Rightarrow>
               (case (as_str_list mood_tags, as_str_list key_themes) of
                  (Some ms, Some ks) \<Rightarrow>
                    render_vibe_summary
                      \<lparr> vs_id = Some (v_id row), vs_place_id = v_place_id row,
                        vs_summary = v_summary row, vs_mood_tags = ms, vs_key_themes = ks \<rparr>
                | _ \<Rightarrow> internal_server_error)
           | _ \<Rightarrow> internal_server_error))"

subsection \<open>\<open>GET /search/\<close>\<close>

text \<open>
  SQLite's \<open>LOWER\<close> and \<open>LIKE\<close> fold the 26 ASCII letters only. In a \<open>LIKE\<close> pattern \<open>%\<close>
  matches any run of characters and \<open>_\<close> any one character; the query has no \<open>ESCAPE\<close>.
  \<open>LIKE\<close> reads its pattern and its text as C strings, up to the first NUL character
  (\<open>c_string\<close>), and compares the two with \<open>pattern_compare\<close>.
  Python's \<open>str.lower\<close>, which folds all of Unicode, is a parameter of \<open>search_places\<close>.
\<close>

definition ascii_lower :: "int \<Rightarrow> int" where
  "ascii_lower c = (if 65 \<le> c \<and> c \<le> 90 then c + 32 else c)"








subsection \<open>The service as a transition system\<close>

text \<open>
  The state of the service is the database and the background tasks added and not yet run.
  A step serves one state-changing request or runs one pending task to its end, under any
  globals (the network may answer anything). Tasks are not interleaved with each other.
\<close>

record app =
  app_db :: database
  app_tasks :: "task list"

datatype request =
    PostPlaces place_body
  | PostScrapePlaceAndReviews create_place_and_scrape_request
  | PostScrapeReviews scrape_request

fun serve :: "request \<Rightarrow> app \<Rightarrow> app" where
  "serve (PostPlaces body) s = s \<lparr> app_db := snd (create_place body (app_db s)) \<rparr>"
| "serve (PostScrapePlaceAndReviews request) s =
     (case create_place_and_scrape_reviews request (app_db s) (app_tasks s) of
        (response, db', tasks') \<Rightarrow> \<lparr> app_db = db', app_tasks = tasks' \<rparr>)"
| "serve (PostScrapeReviews request) s =
     s \<lparr> app_tasks := snd (scrape_reviews request (app_db s) (app_tasks s)) \<rparr>"

definition run_task :: "env \<Rightarrow> nat \<Rightarrow> app \<Rightarrow> app" where
  "run_task g i s =
     (case app_tasks s ! i of
        (place_id, place_name, google_maps_url, tripadvisor_url) \<Rightarrow>
          \<lparr> app_db = run_db (scrape_and_store_reviews g (app_db s) place_id place_name
                               google_maps_url tripadvisor_url),
            app_tasks = take i (app_tasks s) @ drop (Suc i) (app_tasks s) \<rparr>)"

inductive reachable :: "app \<Rightarrow> bool" where
  startup: "reachable \<lparr> app_db = init_db, app_tasks = [] \<rparr>"
| request: "reachable s \<Longrightarrow> reachable (serve r s)"
| background: "reachable s \<Longrightarrow> i < length (app_tasks s) \<Longrightarrow> reachable (run_task g i s)"

section \<open>The scraper's command line (\<open>gmaps_scraper.py\<close>)\<close>

text \<open>
  The forum path. The three credentials are constants of the module and are taken as a
  parameter, as are \<open>str.lower\<close> and the forum itself: \<open>search\<close> answers a subreddit name, a
  query and a limit with the submissions found, each with its comments as
  \<open>comments.list()\<close> gives them once \<open>replace_more(limit=0)\<close> has run. The browser path
  (\<open>scrape_gmaps\<close>) is a parameter of \<open>main\<close>. What the program does to the outside is
  recorded as a list of events.
\<close>

record reddit_credentials =
  client_id :: ustr
  client_secret :: ustr
  user_agent :: ustr

record comment =
  is_comment :: bool
  body :: ustr
  author :: "ustr option"

record submission =
  title :: ustr
  score :: int
  permalink :: ustr
  comments :: "comment list"

record scraped =
  source :: ustr
  query :: ustr
  location_name :: ustr
  review_text :: ustr
  review_author :: ustr
  location_rating :: ustr
  location_address :: ustr
  url :: ustr

datatype event =
    PrawInit ustr ustr ustr
  | PrawSearch ustr ustr int
  | GmapsScrape ustr int
  | WriteCsv ustr "scraped list"

datatype 'a outcome = Returned 'a | SystemExit int | Uncaught exn

text \<open>\<open>s.split(sep)\<close> for a separator that is not empty: \<open>k\<close> counts the characters of a
  matched separator still to skip.\<close>

fun split_aux :: "ustr \<Rightarrow> nat \<Rightarrow> ustr \<Rightarrow> ustr \<Rightarrow> ustr list" where
  "split_aux sep k cur [] = [cur]"
| "split_aux sep (Suc k) cur (c # cs) = split_aux sep k cur cs"
| "split_aux sep 0 cur (c # cs) =
     (if prefix sep (c # cs) then cur # split_aux sep (length sep - 1) [] cs
      else split_aux sep 0 (cur @ [c]) cs)"

definition split :: "ustr \<Rightarrow> ustr \<Rightarrow> ustr list" where
  "split sep s = split_aux sep 0 [] s"

definition keep_comment :: "comment \<Rightarrow> bool" where
  "keep_comment c = (is_comment c \<and> body c \<noteq> [] \<and> author c \<noteq> None \<and> length (body c) > 50)"

definition records_of :: "ustr \<Rightarrow> ustr \<Rightarrow> submission \<Rightarrow> scraped list" where
  "records_of q subreddit_name sub =
     map (\<lambda>c. \<lparr> source = u ''Reddit'', query = q, location_name = title sub,
                review_text = body c,
                review_author = (case author c of Some a \<Rightarrow> a | None \<Rightarrow> []),
                location_rating = str_of_int (score sub) @ u '' upvotes'',
                location_address = u ''r/'' @ subreddit_name,
                url = u ''https://reddit.com'' @ permalink sub \<rparr>)
         (filter keep_comment (take 20 (comments sub)))"

definition scrape_reddit ::
  "reddit_credentials \<Rightarrow> (ustr \<Rightarrow> ustr) \<Rightarrow> (ustr \<Rightarrow> ustr \<Rightarrow> int \<Rightarrow> exn + submission list)
     \<Rightarrow> ustr \<Rightarrow> int \<Rightarrow> event list \<times> scraped list outcome" where
  "scrape_reddit creds lower search q limit =
     (if client_id creds = u ''YOUR_CLIENT_ID'' \<or> client_secret creds = u ''YOUR_CLIENT_SECRET''
      then ([], SystemExit 1)
      else
        (let init = PrawInit (client_id creds) (client_secret creds) (user_agent creds);
             query_parts = split (u '' in '') (lower q);
             subreddit_name =
               (if length query_parts > 1 then filter (\<lambda>c. c \<noteq> 32) (last query_parts)
                else u ''all'')
         in case search subreddit_name q limit of
              Inr submissions \<Rightarrow>
                ([init, PrawSearch subreddit_name q limit],
                 Returned (concat (map (records_of q subreddit_name) submissions)))
            | Inl e \<Rightarrow>
                (case search (u ''all'') q limit of
                   Inr submissions \<Rightarrow>
                     ([init, PrawSearch subreddit_name q limit, PrawSearch (u ''all'') q limit],
                      Returned (concat (map (records_of q subreddit_name) submissions)))
                 | Inl e' \<Rightarrow>
                     ([init, PrawSearch subreddit_name q limit, PrawSearch (u ''all'') q limit],
                      Uncaught e'))))"

text \<open>\<open>save_to_csv\<close> writes nothing when there is no record.\<close>

definition save_to_csv :: "scraped list \<Rightarrow> ustr \<Rightarrow> event list" where
  "save_to_csv data filename = (if data = [] then [] else [WriteCsv filename data])"

datatype platform = Gmaps | Reddit

record args =
  arg_platform :: platform
  arg_query :: ustr
  arg_limit :: int
  arg_output :: ustr

definition main ::
  "reddit_credentials \<Rightarrow> (ustr \<Rightarrow> ustr) \<Rightarrow> (ustr \<Rightarrow> ustr \<Rightarrow> int \<Rightarrow> exn + submission list)
     \<Rightarrow> (ustr \<Rightarrow> int \<Rightarrow> exn + scraped list) \<Rightarrow> args \<Rightarrow> event list \<times> unit outcome" where
  "main creds lower search scrape_gmaps a =
     (case arg_platform a of
        Gmaps \<Rightarrow>
          (case scrape_gmaps (arg_query a) (arg_limit a) of
             Inl e \<Rightarrow> ([GmapsScrape (arg_query a) (arg_limit a)], Uncaught e)
           | Inr results \<Rightarrow>
               (GmapsScrape (arg_query a) (arg_limit a) # save_to_csv results (arg_output a),
                Returned ()))
      | Reddit \<Rightarrow>
          (case scrape_reddit creds lower search (arg_query a) (arg_limit a) of
             (events, Returned results) \<Rightarrow>
               (events @ save_to_csv results (arg_output a), Returned ())
           | (events, SystemExit status) \<Rightarrow> (events, SystemExit status)
           | (events, Uncaught e) \<Rightarrow> (events, Uncaught e)))"

text \<open>The status the process ends with: an uncaught exception ends it with status 1.\<close>

fun exit_status :: "'a outcome \<Rightarrow> int" where
  "exit_status (Returned x) = 0"
| "exit_status (SystemExit status) = status"
| "exit_status (Uncaught e) = 1"

section \<open>Notions used in the statements\<close>

text \<open>
  What \<open>json.loads\<close> makes of the text \<open>json.dumps\<close> wrote for a string: a high surrogate
  directly followed by a low surrogate comes back as the one code point the pair encodes.
\<close>

fun join_surrogates :: "ustr \<Rightarrow> ustr" where
  "join_surrogates (a # b # cs) =
     (if is_high_surrogate a \<and> is_low_surrogate b
      then (0x10000 + ((a - 0xD800) * 0x400 + (b - 0xDC00))) # join_surrogates cs
      else a # join_surrogates (b # cs))"
| "join_surrogates [a] = [a]"
| "join_surrogates [] = []"

text \<open>A string in which no high surrogate is directly followed by a low surrogate.\<close>

fun no_surrogate_pair :: "ustr \<Rightarrow> bool" where
  "no_surrogate_pair (a # b # cs) =
     (\<not> (is_high_surrogate a \<and> is_low_surrogate b) \<and> no_surrogate_pair (b # cs))"
| "no_surrogate_pair cs = True"

text \<open>The text after a \<open>u\<close> escape does not go on with the escape of a low surrogate.\<close>

definition no_low_escape :: "ustr \<Rightarrow> bool" where
  "no_low_escape r =
     (take 2 r \<noteq> [92, 117]
      \<or> (case decode_uXXXX (take 4 (drop 2 r)) of
            None \<Rightarrow> False
          | Some n \<Rightarrow> \<not> is_low_surrogate n))"

text \<open>The write path of the summary followed by the read path.\<close>

definition upsert_then_get ::
  "env \<Rightarrow> ustr \<Rightarrow> int \<Rightarrow> database \<Rightarrow> vibe_summary response option" where
  "upsert_then_get g summary_json place_id db =
     (case upsert_vibe_summary g summary_json place_id db of
        Inl e \<Rightarrow> None
      | Inr db' \<Rightarrow> Some (get_vibe_summary db' place_id))"


text \<open>
  The state of the service is consistent: place ids are distinct and were handed out by the
  counter, there is at most one summary row for a place id, and summary rows, review rows
  and pending tasks refer to places that exist.
\<close>

definition consistent :: "app \<Rightarrow> bool" where
  "consistent s =
     (distinct (map p_id (places (app_db s)))
      \<and> list_all (\<lambda>p. p_id p \<le> seq_places (app_db s)) (places (app_db s))
      \<and> distinct (map v_place_id (vibe_summaries (app_db s)))
      \<and> list_all (\<lambda>v. v_place_id v \<in> set (map p_id (places (app_db s))))
           (vibe_summaries (app_db s))
      \<and> list_all (\<lambda>r. r_place_id r \<in> set (map p_id (places (app_db s)))) (reviews (app_db s))
      \<and> list_all (\<lambda>t. fst t \<in> set (map p_id (places (app_db s)))) (app_tasks s))"

text \<open>
  The review texts a run of the background task has collected when its two sources are
  done (\<open>all_reviews\<close>), and the string the Summarizer returns for them.
\<close>

definition reviews_of_run ::
  "env \<Rightarrow> database \<Rightarrow> int \<Rightarrow> ustr option \<Rightarrow> ustr option \<Rightarrow> ustr list" where
  "reviews_of_run g db place_id google_maps_url tripadvisor_url =
     fst (snd (scrape_phase g db place_id google_maps_url tripadvisor_url))"

definition summary_of_run :: "env \<Rightarrow> database \<Rightarrow> int \<Rightarrow> ustr option \<Rightarrow> ustr option \<Rightarrow> ustr" where
  "summary_of_run g db place_id google_maps_url tripadvisor_url =
     snd (summarize_reviews (py_float_repr g) (openai_api_key g) (openai_acreate g)
            (reviews_of_run g db place_id google_maps_url tripadvisor_url))"

text \<open>
  Sample data, after the scenario of the specification: the place Blue Cup in Pune, an
  extractor bound to a stub that finds two reviews, and a network that answers with a
  given reply (the two texts of a float are those of \<open>1.5\<close>, whatever the float: the samples
  hold none). \<open>blue_cup_scraped\<close> is the service after the place was created with
  \<open>POST /scrape/place-and-reviews\<close> and its background task has run; \<open>two_places\<close> is the
  service after two \<open>POST /places/\<close>.
\<close>

definition sample_float_text :: "ustr \<Rightarrow> string" where
  "sample_float_text literal = ''1.5''"

definition sample_env :: "ustr \<Rightarrow> env" where
  "sample_env reply =
     \<lparr> scrape_google_maps_reviews = Some (\<lambda>link. Inr [u ''cozy and quiet'', u ''loud but fun'']),
       scrape_tripadvisor_reviews = None,
       openai_api_key = Some (u ''sk-test''),
       openai_acreate = (\<lambda>request. Inr [reply]),
       py_float_repr = sample_float_text,
       sqlite_real_text = sample_float_text \<rparr>"

definition cozy_reply :: ustr where
  "cozy_reply = u ''{\"summary\":\"'' @ [0x2615] @ u '' cozy\",\"mood_tags\":[\"cozy\",\"quiet\"],\"key_themes\":[\"reading\"]}''"

definition null_tags_reply :: ustr where
  "null_tags_reply = u ''{\"summary\": \"cozy\", \"mood_tags\": null, \"key_themes\": []}''"

definition blue_cup :: create_place_and_scrape_request where
  "blue_cup =
     \<lparr> b_name = u ''Blue Cup'', b_city = u ''Pune'', b_category = u ''cafe'',
       b_address = None, b_latitude = None, b_longitude = None,
       b_google_maps_url = Some (u ''https://maps.example/blue-cup''),
       b_tripadvisor_url = None \<rparr>"

definition two_places :: app where
  "two_places =
     serve (PostPlaces \<lparr> b_name = u ''Tea House'', b_city = u ''Pune'', b_category = u ''cafe'',
                          b_address = None, b_latitude = None, b_longitude = None \<rparr>)
       (serve (PostPlaces \<lparr> b_name = u ''Blue Cup'', b_city = u ''Pune'', b_category = u ''cafe'',
                            b_address = None, b_latitude = None, b_longitude = None \<rparr>)
          \<lparr> app_db = init_db, app_tasks = [] \<rparr>)"

definition blue_cup_scraped :: app where
  "blue_cup_scraped =
     run_task (sample_env cozy_reply) 0
       (serve (PostScrapePlaceAndReviews blue_cup) \<lparr> app_db = init_db, app_tasks = [] \<rparr>)"





section \<open>The JSON codec: decoding what was encoded\<close>

lemma hex_val_hex_digit: "0 \<le> d \<Longrightarrow> d < 16 \<Longrightarrow> hex_val (hex_digit d) = Some d"
  by (auto simp: hex_val_def hex_digit_def)

lemma horner16:
  fixes n :: int
  shows "a0 + 16 * q1 = n \<Longrightarrow> a1 + 16 * q2 = q1 \<Longrightarrow> a2 + 16 * a3 = q2
    \<Longrightarrow> ((a3 * 16 + a2) * 16 + a1) * 16 + a0 = n"
  by (simp add: algebra_simps)

lemma hex4_value:
  fixes n :: int
  assumes "0 \<le> n" "n < 0x10000"
  shows "((n div 4096 mod 16 * 16 + n div 256 mod 16) * 16 + n div 16 mod 16) * 16 + n mod 16 = n"
proof -
  have a: "n mod 16 + 16 * (n div 16) = n" by simp
  have b: "(n div 16) mod 16 + 16 * (n div 256) = n div 16"
    using mod_mult_div_eq [of "n div 16" 16] by (simp add: zdiv_zmult2_eq [symmetric])
  have e: "0 \<le> n div 4096" "n div 4096 < 16" using assms by simp_all
  then have f: "n div 4096 mod 16 = n div 4096" by simp
  have c: "(n div 256) mod 16 + 16 * (n div 4096 mod 16) = n div 256"
    unfolding f using mod_mult_div_eq [of "n div 256" 16] by (simp add: zdiv_zmult2_eq [symmetric])
  show ?thesis by (rule horner16 [OF a b c])
qed

lemma hex_val_mod16: "hex_val (hex_digit (x mod 16)) = Some (x mod 16)"
  by (rule hex_val_hex_digit) simp_all

lemma decode_hex4:
  assumes "0 \<le> n" "n < 0x10000"
  shows "decode_uXXXX (hex4 n) = Some n"
  by (simp only: hex4_def decode_uXXXX.simps hex_val_mod16 option.case prod.case
      hex4_value [OF assms])

lemma length_hex4 [simp]: "length (hex4 n) = 4"
  by (simp add: hex4_def)

lemma astral_halves:
  fixes c :: int
  assumes "0x10000 \<le> c" "c < 0x110000"
  shows "is_high_surrogate (0xD800 + ((c - 0x10000) div 0x400) mod 0x400)"
    and "is_low_surrogate (0xDC00 + (c - 0x10000) mod 0x400)"
    and "0x10000 + ((0xD800 + ((c - 0x10000) div 0x400) mod 0x400 - 0xD800) * 0x400
           + (0xDC00 + (c - 0x10000) mod 0x400 - 0xDC00)) = c"
proof -
  define m where "m = c - 0x10000"
  define d where "d = m div 0x400"
  define r where "r = m mod 0x400"
  have m: "0 \<le> m" "m < 0x100000" using assms by (simp_all add: m_def)
  have q: "0 \<le> d" "d < 0x400" using m by (simp_all add: d_def)
  then have q': "d mod 0x400 = d" by simp
  have r: "0 \<le> r" "r < 0x400" by (simp_all add: r_def)
  have s: "d * 0x400 + r = m" by (simp add: d_def r_def)
  show "is_high_surrogate (0xD800 + ((c - 0x10000) div 0x400) mod 0x400)"
    unfolding m_def [symmetric] d_def [symmetric] q' is_high_surrogate_def using q by simp
  show "is_low_surrogate (0xDC00 + (c - 0x10000) mod 0x400)"
    unfolding m_def [symmetric] r_def [symmetric] is_low_surrogate_def using r by simp
  have "0x10000 + ((0xD800 + d - 0xD800) * 0x400 + (0xDC00 + r - 0xDC00)) = c"
    using s by (simp add: m_def)
  then show "0x10000 + ((0xD800 + ((c - 0x10000) div 0x400) mod 0x400 - 0xD800) * 0x400
           + (0xDC00 + (c - 0x10000) mod 0x400 - 0xDC00)) = c"
    unfolding m_def [symmetric] d_def [symmetric] r_def [symmetric] q' .
qed

lemma scan_u_escape_single:
  assumes "0 \<le> n" "n < 0x10000" "\<not> is_high_surrogate n \<or> no_low_escape r"
  shows "scanstring (u_escape n @ r) = prepend n (scanstring r)"
  using assms
  by (auto simp: u_escape_def scanstring.simps(2) decode_hex4 no_low_escape_def
      split: option.splits)

lemma scan_u_escape_pair:
  assumes "is_high_surrogate a" "is_low_surrogate b"
  shows "scanstring (u_escape a @ u_escape b @ r) =
         prepend (0x10000 + ((a - 0xD800) * 0x400 + (b - 0xDC00))) (scanstring r)"
proof -
  have a: "0 \<le> a" "a < 0x10000" and b: "0 \<le> b" "b < 0x10000"
    using assms by (auto simp: is_high_surrogate_def is_low_surrogate_def)
  show ?thesis
    using assms by (simp add: u_escape_def scanstring.simps(2) decode_hex4 a b)
qed

lemma scan_escape_char:
  assumes "0 \<le> c" "c < 0x110000" "\<not> is_high_surrogate c \<or> no_low_escape r"
  shows "scanstring (escape_char c @ r) = prepend c (scanstring r)"
proof (cases "c < 0x10000")
  case True
  then show ?thesis
    using assms scan_u_escape_single[of c r]
    by (auto simp: escape_char_def scanstring.simps(2) backslash_def)
next
  case False
  then have c: "0x10000 \<le> c" "c < 0x110000" using assms by auto
  have "escape_char c = u_escape (0xD800 + ((c - 0x10000) div 0x400) mod 0x400)
           @ u_escape (0xDC00 + (c - 0x10000) mod 0x400)"
    using c by (simp add: escape_char_def)
  then show ?thesis
    using scan_u_escape_pair[OF astral_halves(1,2)[OF c], of r] astral_halves(3)[OF c]
    by simp
qed

lemma high_not_low: "is_high_surrogate c \<Longrightarrow> \<not> is_low_surrogate c"
  by (simp add: is_high_surrogate_def is_low_surrogate_def)

lemma no_low_escape_quote: "no_low_escape (34 # r)"
  by (simp add: no_low_escape_def)

lemma no_low_escape_u_escape:
  assumes "0 \<le> n" "n < 0x10000" "\<not> is_low_surrogate n"
  shows "no_low_escape (u_escape n @ r)"
  using assms by (auto simp: no_low_escape_def u_escape_def decode_hex4)

lemma escape_char_shape:
  "b < 0x10000 \<Longrightarrow>
   escape_char b = u_escape b \<or> (\<exists>x. escape_char b = [92, x] \<and> x \<noteq> 117)
   \<or> (escape_char b = [b] \<and> b \<noteq> 92)"
  by (simp add: escape_char_def)

lemma no_low_escape_escape_char:
  assumes "0 \<le> b" "b < 0x110000" "\<not> is_low_surrogate b"
  shows "no_low_escape (escape_char b @ r)"
proof (cases "b < 0x10000")
  case True
  from escape_char_shape [OF True] show ?thesis
  proof (elim disjE exE conjE)
    assume "escape_char b = u_escape b"
    then show ?thesis using no_low_escape_u_escape [OF assms(1) True assms(3)] by simp
  next
    fix x assume "escape_char b = [92, x]" "x \<noteq> 117"
    then show ?thesis by (simp add: no_low_escape_def)
  next
    assume "escape_char b = [b]" "b \<noteq> 92"
    then show ?thesis by (simp add: no_low_escape_def)
  qed
next
  case False
  then have c: "0x10000 \<le> b" "b < 0x110000" using assms by auto
  let ?h = "0xD800 + ((b - 0x10000) div 0x400) mod 0x400"
  have e: "escape_char b = u_escape ?h @ u_escape (0xDC00 + (b - 0x10000) mod 0x400)"
    using c by (simp add: escape_char_def)
  have h: "is_high_surrogate ?h" by (rule astral_halves(1) [OF c])
  have h1: "0 \<le> ?h" using h unfolding is_high_surrogate_def by simp
  have h2: "?h < 0x10000" using h unfolding is_high_surrogate_def by simp
  have h3: "\<not> is_low_surrogate ?h" using h by (rule high_not_low)
  show ?thesis unfolding e append_assoc using h1 h2 h3 by (rule no_low_escape_u_escape)
qed

lemma escape_char_surrogate:
  "0xD800 \<le> c \<Longrightarrow> c \<le> 0xDFFF \<Longrightarrow> escape_char c = u_escape c"
  by (simp add: escape_char_def)

lemma scanstring_quote: "scanstring (34 # r) = Inr ([], r)"
  by (simp add: scanstring.simps(2))

lemma scanstring_encoded:
  "valid_str s \<Longrightarrow> scanstring (concat (map escape_char s) @ 34 # r) = Inr (join_surrogates s, r)"
proof (induction s rule: join_surrogates.induct)
  case (1 a b cs)
  then have va: "0 \<le> a" "a < 0x110000" and vb: "0 \<le> b" "b < 0x110000"
    and vcs: "valid_str cs" and vbcs: "valid_str (b # cs)"
    by (simp_all add: valid_str_def)
  show ?case
  proof (cases "is_high_surrogate a \<and> is_low_surrogate b")
    case True
    then have ea: "escape_char a = u_escape a" and eb: "escape_char b = u_escape b"
      by (simp_all add: escape_char_surrogate is_high_surrogate_def is_low_surrogate_def)
    have "scanstring (u_escape a @ u_escape b @ concat (map escape_char cs) @ 34 # r)
          = prepend (0x10000 + ((a - 0xD800) * 0x400 + (b - 0xDC00)))
              (scanstring (concat (map escape_char cs) @ 34 # r))"
      using True by (simp add: scan_u_escape_pair)
    then show ?thesis using True "1.IH"(1) [OF True vcs] by (simp add: ea eb)
  next
    case False
    then have "\<not> is_high_surrogate a \<or> no_low_escape (escape_char b @ concat (map escape_char cs) @ 34 # r)"
      using no_low_escape_escape_char [OF vb] by blast
    then have "scanstring (escape_char a @ escape_char b @ concat (map escape_char cs) @ 34 # r)
          = prepend a (scanstring (escape_char b @ concat (map escape_char cs) @ 34 # r))"
      by (rule scan_escape_char [OF va])
    then show ?thesis using "1.IH"(2) [OF False vbcs] by (simp add: False)
  qed
next
  case (2 v)
  then have v: "0 \<le> v" "v < 0x110000" by (simp_all add: valid_str_def)
  have "scanstring (escape_char v @ 34 # r) = prepend v (scanstring (34 # r))"
    by (rule scan_escape_char [OF v]) (simp add: no_low_escape_quote)
  then show ?case by (simp add: scanstring_quote)
next
  case 3
  then show ?case by (simp add: scanstring_quote)
qed

lemma join_surrogates_id: "no_surrogate_pair s \<Longrightarrow> join_surrogates s = s"
  by (induction s rule: join_surrogates.induct) auto

lemma hex_digit_ascii: "0 \<le> d \<Longrightarrow> d < 16 \<Longrightarrow> 0 \<le> hex_digit d \<and> hex_digit d < 128"
  by (simp add: hex_digit_def)

lemma hex_digit_mod16_ascii: "0 \<le> hex_digit (x mod 16) \<and> hex_digit (x mod 16) < 128"
  by (rule hex_digit_ascii) simp_all

lemma u_escape_ascii: "list_all (\<lambda>c. 0 \<le> c \<and> c < 128) (u_escape n)"
  by (simp add: u_escape_def hex4_def hex_digit_mod16_ascii)

lemma escape_char_ascii: "list_all (\<lambda>c. 0 \<le> c \<and> c < 128) (escape_char c)"
  by (simp add: escape_char_def u_escape_ascii)

lemma encode_ascii: "list_all (\<lambda>c. 0 \<le> c \<and> c < 128) (encode_basestring_ascii s)"
  by (induction s) (simp_all add: encode_basestring_ascii_def escape_char_ascii)

lemma scan_once_string:
  "valid_str s \<Longrightarrow>
   scan_once (Suc n) (encode_basestring_ascii s @ r) = Inr (JStr (join_surrogates s), r)"
  by (simp add: encode_basestring_ascii_def scanstring_encoded)

lemma encode_starts: "encode_basestring_ascii s = 34 # tl (encode_basestring_ascii s)"
  by (simp add: encode_basestring_ascii_def)

lemma dumps_strings_starts:
  "dumps_items fr (JStr y # map JStr ys) = 34 # tl (dumps_items fr (JStr y # map JStr ys))"
  by (cases ys) (simp_all add: encode_basestring_ascii_def)

lemma skip_ws_quote [simp]: "skip_ws (34 # r) = 34 # r"
  by (simp add: skip_ws_def is_ws_def)

lemma skip_ws_space_quote [simp]: "skip_ws (32 # 34 # r) = 34 # r"
  by (simp add: skip_ws_def is_ws_def)

lemma skip_ws_close [simp]: "skip_ws (93 # r) = 93 # r" "skip_ws (125 # r) = 125 # r"
  "skip_ws (44 # r) = 44 # r" "skip_ws (58 # r) = 58 # r" "skip_ws [] = []"
  by (simp_all add: skip_ws_def is_ws_def)

lemma scan_array_strings:
  "list_all valid_str (x # xs) \<Longrightarrow> length (x # xs) < n \<Longrightarrow>
   scan_array n acc (dumps_items fr (JStr x # map JStr xs) @ 93 # r)
   = Inr (JArr (acc @ map (\<lambda>s. JStr (join_surrogates s)) (x # xs)), r)"
proof (induction xs arbitrary: x n acc)
  case Nil
  then obtain m where n: "n = Suc (Suc m)" by (cases n; cases "n - 1") auto
  from Nil show ?case unfolding n by (simp add: scan_once_string)
next
  case (Cons y ys)
  then obtain m where n: "n = Suc (Suc m)" by (cases n; cases "n - 1") auto
  have vx: "valid_str x" and vr: "list_all valid_str (y # ys)" using Cons.prems by simp_all
  have len: "length (y # ys) < Suc m" using Cons.prems unfolding n by simp
  obtain t where t: "dumps_items fr (JStr y # map JStr ys) = 34 # t"
    using dumps_strings_starts by blast
  have step: "scan_once (Suc m) (encode_basestring_ascii x @ 44 # 32 # 34 # t @ 93 # r)
      = Inr (JStr (join_surrogates x), 44 # 32 # 34 # t @ 93 # r)"
    by (rule scan_once_string [OF vx])
  have "scan_array (Suc (Suc m)) acc (dumps_items fr (JStr x # map JStr (y # ys)) @ 93 # r)
      = scan_array (Suc m) (acc @ [JStr (join_surrogates x)]) (34 # t @ 93 # r)"
    using step by (simp add: t)
  then show ?case unfolding n using Cons.IH [OF vr len]
    by (simp add: t)
qed

lemma length_le_dumps_strings: "length xs \<le> length (dumps_items fr (map JStr xs))"
proof (induction xs rule: induct_list012)
  case (3 x y zs)
  then show ?case by (simp add: encode_basestring_ascii_def)
qed (simp_all add: encode_basestring_ascii_def)

lemma scan_once_array:
  assumes "list_all valid_str (y # ys)" "length (y # ys) < n"
  shows "scan_once (Suc n) (91 # dumps_items fr (JStr y # map JStr ys) @ 93 # r)
         = Inr (JArr (map (\<lambda>s. JStr (join_surrogates s)) (y # ys)), r)"
proof -
  obtain t where t: "dumps_items fr (JStr y # map JStr ys) = 34 # t"
    using dumps_strings_starts by blast
  have "scan_array n [] (dumps_items fr (JStr y # map JStr ys) @ 93 # r)
        = Inr (JArr ([] @ map (\<lambda>s. JStr (join_surrogates s)) (y # ys)), r)"
    using assms by (rule scan_array_strings)
  then show ?thesis by (simp add: t)
qed

lemma loads_empty_array: "json_loads (json_dumps fr (JArr [])) = Inr (JArr [])"
  by code_simp

lemma loads_dumps_strings:
  assumes "list_all valid_str xs"
  shows "json_loads (json_dumps fr (JArr (map JStr xs))) = Inr (JArr (map (\<lambda>s. JStr (join_surrogates s)) xs))"
proof (cases xs)
  case Nil
  then show ?thesis by (simp only: list.map loads_empty_array)
next
  case (Cons y ys)
  let ?text = "91 # dumps_items fr (JStr y # map JStr ys) @ [93]"
  have dumps: "json_dumps fr (JArr (map JStr (y # ys))) = ?text" by simp
  have bom: "(take 1 ?text = [0xFEFF]) = False" by simp
  have ws: "skip_ws ?text = ?text" by (simp add: skip_ws_def is_ws_def)
  have len: "length (y # ys) < 2 * length ?text"
    using length_le_dumps_strings [of "y # ys" fr] by simp
  have scan: "scan_once (Suc (2 * length ?text)) ?text
              = Inr (JArr (map (\<lambda>s. JStr (join_surrogates s)) (y # ys)), [])"
    using assms len unfolding Cons by (rule scan_once_array)
  show ?thesis unfolding Cons dumps json_loads_def
    by (simp only: bom ws scan if_False if_True sum.case prod.case skip_ws_close simp_thms)
qed

lemma as_str_list_strings: "as_str_list (JArr (map (\<lambda>s. JStr (f s)) xs)) = Some (map f xs)"
  by (simp add: list_all_iff comp_def)

lemma ascii_utf8_encodable: "list_all (\<lambda>c. 0 \<le> c \<and> c < 128) s \<Longrightarrow> utf8_encodable s"
  by (simp add: utf8_encodable_def list_all_iff) force

lemma dumps_strings_ascii:
  "list_all (\<lambda>c. 0 \<le> c \<and> c < 128) (dumps_items fr (map JStr xs))"
  by (induction xs rule: induct_list012) (simp_all add: encode_ascii)

lemma dumps_strings_encodable: "utf8_encodable (json_dumps fr (JArr (map JStr xs)))"
  by (rule ascii_utf8_encodable) (simp add: dumps_strings_ascii)


section \<open>Binding the parameters of a statement\<close>

lemma of_char_range: "0 \<le> (of_char c :: int) \<and> (of_char c :: int) < 256"
proof -
  have e: "(of_char c :: int) = int (of_char c)" by (rule of_nat_of_char [symmetric])
  have "(of_char c :: nat) < 256" by (rule nat_of_char_less_256)
  then show ?thesis unfolding e by simp
qed

lemma utf8_encodable_u: "utf8_encodable (u s)"
proof -
  have "0 \<le> (of_char c :: int) \<and> (of_char c :: int) < 0x110000
        \<and> \<not> (0xD800 \<le> (of_char c :: int) \<and> (of_char c :: int) \<le> 0xDFFF)" for c
    using of_char_range [of c] by linarith
  then show ?thesis by (simp add: utf8_encodable_def u_def list_all_iff)
qed

lemma utf8_encodable_valid: "utf8_encodable s \<Longrightarrow> valid_str s"
  by (simp add: utf8_encodable_def valid_str_def list_all_iff)

lemma utf8_encodable_no_pair: "utf8_encodable s \<Longrightarrow> no_surrogate_pair s"
proof (induction s rule: no_surrogate_pair.induct)
  case (1 a b cs)
  then show ?case by (auto simp: utf8_encodable_def is_high_surrogate_def)
qed simp_all

lemma dec_digits_ascii: "list_all (\<lambda>c. 0 \<le> c \<and> c < 128) (dec_digits n)"
proof (induction n rule: dec_digits.induct)
  case (1 n)
  show ?case
  proof (cases "n < 10")
    case True
    then show ?thesis by (subst dec_digits.simps) simp
  next
    case False
    have "n mod 10 < 10" by simp
    then have "48 + int (n mod 10) < 128" by linarith
    with False 1 show ?thesis by (subst dec_digits.simps) simp
  qed
qed

lemma str_of_int_encodable: "utf8_encodable (str_of_int i)"
  by (rule ascii_utf8_encodable) (simp add: str_of_int_def dec_digits_ascii)

lemma bind_text_not_null_encodable:
  "bind_text_not_null rt v = Inr s \<Longrightarrow> utf8_encodable s"
  by (cases v)
     (auto simp: bind_str_def bind_int_def utf8_encodable_u str_of_int_encodable
           split: if_splits)

lemma bind_str_Inr: "bind_str s = Inr t \<Longrightarrow> t = s"
  by (simp add: bind_str_def split: if_splits)

lemma bind_int_Inr: "bind_int i = Inr j \<longleftrightarrow> fits_int64 i \<and> j = i"
  by (auto simp: bind_int_def)

lemma and_then_Inr: "and_then r f = Inr y \<Longrightarrow> \<exists>x. r = Inr x \<and> f x = Inr y"
  by (cases r) simp_all

lemma select_place_fits:
  "fits_int64 pid \<Longrightarrow> select_place db pid = Inr (find (\<lambda>p. p_id p = pid) (places db))"
  by (simp add: select_place_def bind_int_def)

lemma select_reviews_fits:
  "fits_int64 pid \<Longrightarrow>
   select_reviews db pid = Inr (filter (\<lambda>r. r_place_id r = pid) (reviews db))"
  by (simp add: select_reviews_def bind_int_def)

lemma select_vibe_fits:
  "fits_int64 pid \<Longrightarrow>
   select_vibe db pid = Inr (find (\<lambda>v. v_place_id v = pid) (vibe_summaries db))"
  by (simp add: select_vibe_def bind_int_def)

lemma select_vibe_Inr:
  "select_vibe db pid = Inr r \<Longrightarrow>
   fits_int64 pid \<and> r = find (\<lambda>v. v_place_id v = pid) (vibe_summaries db)"
  by (auto simp: select_vibe_def bind_int_def split: if_splits)

lemma select_place_Inr:
  "select_place db pid = Inr r \<Longrightarrow>
   fits_int64 pid \<and> r = find (\<lambda>p. p_id p = pid) (places db)"
  by (auto simp: select_place_def bind_int_def split: if_splits)

section \<open>The Summarizer without credentials\<close>

lemma missing_key_text:
  "json_dumps float_repr (error_message (u ''AI Summarizer is not configured. Missing API Key.'') ''configuration'')
   = u ''{\"summary\": \"AI Summarizer is not configured. Missing API Key.\", \"mood_tags\": [\"error\"], \"key_themes\": [\"configuration\"]}''"
  by code_simp

lemma missing_key_parse:
  "json_loads (u ''{\"summary\": \"AI Summarizer is not configured. Missing API Key.\", \"mood_tags\": [\"error\"], \"key_themes\": [\"configuration\"]}'')
   = Inr (JObj [(u ''summary'', JStr (u ''AI Summarizer is not configured. Missing API Key.'')),
                (u ''mood_tags'', JArr [JStr (u ''error'')]),
                (u ''key_themes'', JArr [JStr (u ''configuration'')])])"
  by code_simp

text \<open>
  Claim C7. When the API key is absent (\<open>None\<close> or empty), \<open>summarize_reviews\<close> sends no
  request to the network and returns, for every list of reviews, the JSON text of the object
  whose \<open>summary\<close> says that the Summarizer is not configured, whose \<open>mood_tags\<close> is the list
  \<open>["error"]\<close> and whose \<open>key_themes\<close> is the list \<open>["configuration"]\<close>. (The text holds no
  float, so it is the same for every \<open>float_repr\<close>.)
\<close>

theorem summarize_reviews_without_api_key:
  "\<not> truthy api_key \<Longrightarrow>
   summarize_reviews float_repr api_key acreate texts =
     ([], u ''{\"summary\": \"AI Summarizer is not configured. Missing API Key.\", \"mood_tags\": [\"error\"], \"key_themes\": [\"configuration\"]}'')
   \<and> json_loads (snd (summarize_reviews float_repr api_key acreate texts)) =
       Inr (JObj [(u ''summary'', JStr (u ''AI Summarizer is not configured. Missing API Key.'')),
                  (u ''mood_tags'', JArr [JStr (u ''error'')]),
                  (u ''key_themes'', JArr [JStr (u ''configuration'')])])"
  by (simp only: summarize_reviews_def if_True missing_key_text missing_key_parse snd_conv simp_thms)

theorem summarize_reviews_without_api_key_witness:
  "\<not> truthy None \<and>
   (summarize_reviews sample_float_text None (\<lambda>r. Inr [[104, 105]]) [[103, 111, 111, 100]] =
     ([], u ''{\"summary\": \"AI Summarizer is not configured. Missing API Key.\", \"mood_tags\": [\"error\"], \"key_themes\": [\"configuration\"]}'')
   \<and> json_loads (snd (summarize_reviews sample_float_text None (\<lambda>r. Inr [[104, 105]]) [[103, 111, 111, 100]])) =
       Inr (JObj [(u ''summary'', JStr (u ''AI Summarizer is not configured. Missing API Key.'')),
                  (u ''mood_tags'', JArr [JStr (u ''error'')]),
                  (u ''key_themes'', JArr [JStr (u ''configuration'')])]))"
proof -
  have h: "\<not> truthy None" by simp
  show ?thesis
    by (rule conjI [OF h summarize_reviews_without_api_key [OF h]])
qed

section \<open>The forum path without credentials\<close>

text \<open>
  Claim C9, as amended. When the client id or the client secret still is its placeholder
  text (\<open>YOUR_CLIENT_ID\<close>, \<open>YOUR_CLIENT_SECRET\<close>), the forum path of the command line ends the
  process with status 1 at once: the API client is not initialized and nothing is searched,
  scraped or written.
\<close>

theorem reddit_exits_without_credentials:
  "client_id creds = u ''YOUR_CLIENT_ID'' \<or> client_secret creds = u ''YOUR_CLIENT_SECRET'' \<Longrightarrow>
   scrape_reddit creds lower search q limit = ([], SystemExit 1)
   \<and> (arg_platform a = Reddit \<longrightarrow>
        main creds lower search gmaps a = ([], SystemExit 1)
        \<and> exit_status (snd (main creds lower search gmaps a)) = 1)"
  by (auto simp: scrape_reddit_def main_def)

theorem reddit_exits_without_credentials_witness:
  "(client_id \<lparr> client_id = u ''YOUR_CLIENT_ID'', client_secret = u ''s3cret'', user_agent = u ''agent'' \<rparr>
      = u ''YOUR_CLIENT_ID''
    \<or> client_secret \<lparr> client_id = u ''YOUR_CLIENT_ID'', client_secret = u ''s3cret'', user_agent = u ''agent'' \<rparr>
      = u ''YOUR_CLIENT_SECRET'')
   \<and> arg_platform \<lparr> arg_platform = Reddit, arg_query = u ''Cafes in Delhi'', arg_limit = 5,
                     arg_output = u ''vibe_navigator_data.csv'' \<rparr> = Reddit
   \<and> main \<lparr> client_id = u ''YOUR_CLIENT_ID'', client_secret = u ''s3cret'', user_agent = u ''agent'' \<rparr>
        (map ascii_lower) (\<lambda>sub q n. Inr []) (\<lambda>q n. Inr [])
        \<lparr> arg_platform = Reddit, arg_query = u ''Cafes in Delhi'', arg_limit = 5,
          arg_output = u ''vibe_navigator_data.csv'' \<rparr> = ([], SystemExit 1)"
  using reddit_exits_without_credentials
    [of "\<lparr> client_id = u ''YOUR_CLIENT_ID'', client_secret = u ''s3cret'', user_agent = u ''agent'' \<rparr>"
        "map ascii_lower" "\<lambda>sub q n. Inr []" "u ''Cafes in Delhi''" 5
        "\<lparr> arg_platform = Reddit, arg_query = u ''Cafes in Delhi'', arg_limit = 5,
           arg_output = u ''vibe_navigator_data.csv'' \<rparr>" "\<lambda>q n. Inr []"]
  by simp

text \<open>
  The claim as stated, for credentials that are unset, fails: the check compares the
  credentials with the two placeholder texts and with nothing else. With an empty client id
  and an empty client secret the API client is initialized and the forum is searched. If
  the forum answers, the process ends with status 0; if it refuses both searches, the
  process ends with status 1, after the client was initialized and the two searches were
  sent.
\<close>

theorem reddit_exits_without_credentials_counterexample:
  "main \<lparr> client_id = [], client_secret = [], user_agent = u ''agent'' \<rparr>
        (map ascii_lower) (\<lambda>sub q n. Inr []) (\<lambda>q n. Inr [])
        \<lparr> arg_platform = Reddit, arg_query = u ''Cafes in Delhi'', arg_limit = 5,
          arg_output = u ''vibe_navigator_data.csv'' \<rparr>
     = ([PrawInit [] [] (u ''agent''), PrawSearch (u ''delhi'') (u ''Cafes in Delhi'') 5],
        Returned ())
   \<and> exit_status (Returned ()) = 0
   \<and> main \<lparr> client_id = [], client_secret = [], user_agent = u ''agent'' \<rparr>
        (map ascii_lower) (\<lambda>sub q n. Inl (Raised ''ResponseException'' (u ''401'')))
        (\<lambda>q n. Inr [])
        \<lparr> arg_platform = Reddit, arg_query = u ''Cafes in Delhi'', arg_limit = 5,
          arg_output = u ''vibe_navigator_data.csv'' \<rparr>
     = ([PrawInit [] [] (u ''agent''), PrawSearch (u ''delhi'') (u ''Cafes in Delhi'') 5,
         PrawSearch (u ''all'') (u ''Cafes in Delhi'') 5],
        Uncaught (Raised ''ResponseException'' (u ''401'')))"
  by code_simp

section \<open>Tag lists from the write path to the read path\<close>

lemma find_append:
  "find P (xs @ ys) = (case find P xs of None \<Rightarrow> find P ys | Some x \<Rightarrow> Some x)"
  by (induction xs) auto

lemma find_map_same:
  "(\<And>v. P (f v) = P v) \<Longrightarrow> find P (map f vs) = map_option f (find P vs)"
  by (induction vs) auto

lemma find_None_list_ex: "find P xs = None \<Longrightarrow> \<not> list_ex P xs"
  by (simp add: find_None_iff list_ex_iff)

lemma find_Some_holds: "find P xs = Some x \<Longrightarrow> P x"
  by (auto simp: find_Some_iff)

lemma upsert_stores:
  assumes "json_loads summary_json = Inr (JObj d)"
    and "bind_text_not_null (sqlite_real_text g)
           (dict_get d (u ''summary'') (JStr (u ''No summary provided.''))) = Inr s"
    and "utf8_encodable (json_dumps (py_float_repr g) (dict_get d (u ''mood_tags'') (JArr [])))"
    and "utf8_encodable (json_dumps (py_float_repr g) (dict_get d (u ''key_themes'') (JArr [])))"
    and "fits_int64 place_id"
  shows "\<exists>db' row. upsert_vibe_summary g summary_json place_id db = Inr db'
           \<and> select_vibe db' place_id = Inr (Some row)
           \<and> v_place_id row = place_id
           \<and> v_summary row = s
           \<and> v_mood_tags row = json_dumps (py_float_repr g) (dict_get d (u ''mood_tags'') (JArr []))
           \<and> v_key_themes row = json_dumps (py_float_repr g) (dict_get d (u ''key_themes'') (JArr []))"
proof (cases "find (\<lambda>v. v_place_id v = place_id) (vibe_summaries db)")
  case None
  have nex: "\<not> list_ex (\<lambda>v. v_place_id v = place_id) (vibe_summaries db)"
    by (rule find_None_list_ex [OF None])
  show ?thesis
    using assms None nex
    by (simp add: upsert_vibe_summary_def insert_vibe_def bind_str_def bind_int_def Let_def
        select_vibe_def find_append)
next
  case (Some existing)
  have p: "v_place_id existing = place_id" using find_Some_holds [OF Some] .
  have m: "find (\<lambda>v. v_place_id v = place_id)
             (map (\<lambda>v. if v_place_id v = place_id then v \<lparr> v_summary := s,
                   v_mood_tags := json_dumps (py_float_repr g) (dict_get d (u ''mood_tags'') (JArr [])),
                   v_key_themes := json_dumps (py_float_repr g) (dict_get d (u ''key_themes'') (JArr [])) \<rparr>
                 else v)
                (vibe_summaries db))
           = Some (existing \<lparr> v_summary := s,
                   v_mood_tags := json_dumps (py_float_repr g) (dict_get d (u ''mood_tags'') (JArr [])),
                   v_key_themes := json_dumps (py_float_repr g) (dict_get d (u ''key_themes'') (JArr [])) \<rparr>)"
    by (subst find_map_same) (simp_all add: Some p)
  show ?thesis
    using assms Some m p
    by (simp add: upsert_vibe_summary_def update_vibe_def bind_str_def bind_int_def Let_def
        select_vibe_def)
qed

lemma map_join_surrogates_id: "list_all no_surrogate_pair xs \<Longrightarrow> map join_surrogates xs = xs"
  by (induction xs) (simp_all add: join_surrogates_id)

lemma list_all_encodable_valid: "list_all utf8_encodable xs \<Longrightarrow> list_all valid_str xs"
  by (simp add: list_all_iff utf8_encodable_valid)

lemma list_all_encodable_no_pair: "list_all utf8_encodable xs \<Longrightarrow> list_all no_surrogate_pair xs"
  by (simp add: list_all_iff utf8_encodable_no_pair)

lemma get_vibe_summary_row:
  assumes "select_vibe db place_id = Inr (Some row)"
    and "v_mood_tags row = json_dumps fr (JArr (map JStr ms))"
    and "v_key_themes row = json_dumps fr (JArr (map JStr ks))"
    and "list_all utf8_encodable ms" "list_all utf8_encodable ks"
    and "utf8_encodable (v_summary row)"
  shows "get_vibe_summary db place_id =
           Ok \<lparr> vs_id = Some (v_id row), vs_place_id = v_place_id row, vs_summary = v_summary row,
                vs_mood_tags = ms, vs_key_themes = ks \<rparr>"
proof -
  have j: "map join_surrogates ms = ms" "map join_surrogates ks = ks"
    using assms(4,5) by (simp_all add: map_join_surrogates_id list_all_encodable_no_pair)
  have "get_vibe_summary db place_id =
          render_vibe_summary
            \<lparr> vs_id = Some (v_id row), vs_place_id = v_place_id row, vs_summary = v_summary row,
              vs_mood_tags = map join_surrogates ms, vs_key_themes = map join_surrogates ks \<rparr>"
    unfolding get_vibe_summary_def
    by (simp only: assms(1,2,3) loads_dumps_strings [OF list_all_encodable_valid [OF assms(4)]]
        loads_dumps_strings [OF list_all_encodable_valid [OF assms(5)]]
        as_str_list_strings option.case prod.case sum.case)
  then show ?thesis
    unfolding j using assms(4,5,6) by (simp add: render_vibe_summary_def)
qed

text \<open>
  Claim C10, as amended. Take a Summarizer payload that parses as an object whose
  \<open>mood_tags\<close> and \<open>key_themes\<close> are lists of strings that hold no surrogate code point
  (strings that can be written as UTF-8), and whose \<open>summary\<close> can be stored, and a place id
  that fits 64 bits. Then the write path stores the payload, whatever the database was, and
  the read path \<open>GET /places/{id}/vibe\<close> answers with exactly the two original lists.
\<close>

theorem tag_lists_round_trip:
  assumes "json_loads summary_json = Inr (JObj d)"
    and "bind_text_not_null (sqlite_real_text g)
           (dict_get d (u ''summary'') (JStr (u ''No summary provided.''))) = Inr s"
    and "dict_get d (u ''mood_tags'') (JArr []) = JArr (map JStr ms)"
    and "dict_get d (u ''key_themes'') (JArr []) = JArr (map JStr ks)"
    and "list_all utf8_encodable ms" "list_all utf8_encodable ks"
    and "fits_int64 place_id"
  shows "\<exists>r. upsert_then_get g summary_json place_id db = Some (Ok r)
            \<and> vs_place_id r = place_id \<and> vs_summary r = s
            \<and> vs_mood_tags r = ms \<and> vs_key_themes r = ks"
proof -
  have e1: "utf8_encodable (json_dumps (py_float_repr g) (dict_get d (u ''mood_tags'') (JArr [])))"
    unfolding assms(3) by (rule dumps_strings_encodable)
  have e2: "utf8_encodable (json_dumps (py_float_repr g) (dict_get d (u ''key_themes'') (JArr [])))"
    unfolding assms(4) by (rule dumps_strings_encodable)
  from upsert_stores [OF assms(1,2) e1 e2 assms(7), of db]
  obtain db' row where up: "upsert_vibe_summary g summary_json place_id db = Inr db'"
    and sel: "select_vibe db' place_id = Inr (Some row)"
    and row: "v_place_id row = place_id" "v_summary row = s"
      "v_mood_tags row = json_dumps (py_float_repr g) (JArr (map JStr ms))"
      "v_key_themes row = json_dumps (py_float_repr g) (JArr (map JStr ks))"
    unfolding assms(3,4) by blast
  have es: "utf8_encodable (v_summary row)"
    unfolding row(2) by (rule bind_text_not_null_encodable [OF assms(2)])
  have "get_vibe_summary db' place_id =
           Ok \<lparr> vs_id = Some (v_id row), vs_place_id = v_place_id row, vs_summary = v_summary row,
                vs_mood_tags = ms, vs_key_themes = ks \<rparr>"
    by (rule get_vibe_summary_row [OF sel row(3,4) assms(5,6) es])
  then show ?thesis
    using up row(1,2) by (simp add: upsert_then_get_def)
qed

text \<open>
  The claim as stated, for every list of strings, fails in two ways. A payload can hold the
  two characters \<open>U+D83D\<close> \<open>U+DE00\<close> as one tag (written in the reply as the raw character
  \<open>U+D83D\<close> followed by the escape of \<open>U+DE00\<close>); \<open>json.dumps\<close> writes the tag as two
  escapes, and \<open>json.loads\<close> reads them back as the single character \<open>U+1F600\<close>. And a tag
  that is the one surrogate \<open>U+D83D\<close> is stored and read back, but the response cannot be
  written as UTF-8, and the read path answers 500.
\<close>

theorem tag_lists_round_trip_counterexample:
  "json_loads (u ''{\"summary\": \"x\", \"mood_tags\": [\"'' @ [0xD83D, 92] @ u ''ude00\"], \"key_themes\": []}'')
     = Inr (JObj [(u ''summary'', JStr (u ''x'')),
                  (u ''mood_tags'', JArr [JStr [0xD83D, 0xDE00]]),
                  (u ''key_themes'', JArr [])])
   \<and> upsert_then_get (sample_env [])
        (u ''{\"summary\": \"x\", \"mood_tags\": [\"'' @ [0xD83D, 92] @ u ''ude00\"], \"key_themes\": []}'')
        1 init_db
     = Some (Ok \<lparr> vs_id = Some 1, vs_place_id = 1, vs_summary = u ''x'',
                   vs_mood_tags = [[0x1F600]], vs_key_themes = [] \<rparr>)
   \<and> [[0x1F600]] \<noteq> [[0xD83D, 0xDE00 :: int]]
   \<and> json_loads (u ''{\"summary\": \"x\", \"mood_tags\": [\"'' @ [92] @ u ''ud83d\"], \"key_themes\": []}'')
     = Inr (JObj [(u ''summary'', JStr (u ''x'')),
                  (u ''mood_tags'', JArr [JStr [0xD83D]]),
                  (u ''key_themes'', JArr [])])
   \<and> upsert_then_get (sample_env [])
        (u ''{\"summary\": \"x\", \"mood_tags\": [\"'' @ [92] @ u ''ud83d\"], \"key_themes\": []}'')
        1 init_db
     = Some (HTTPException 500 (u ''Internal Server Error''))"
  by code_simp

theorem tag_lists_round_trip_witness:
  "json_loads (u ''{\"summary\":\"'' @ [0x2615] @ u '' cozy\",\"mood_tags\":[\"cozy\",\"quiet\"],\"key_themes\":[\"reading\"]}'')
     = Inr (JObj [(u ''summary'', JStr ([0x2615] @ u '' cozy'')),
                  (u ''mood_tags'', JArr (map JStr [u ''cozy'', u ''quiet''])),
                  (u ''key_themes'', JArr (map JStr [u ''reading'']))])
   \<and> (\<exists>r. upsert_then_get (sample_env [])
          (u ''{\"summary\":\"'' @ [0x2615] @ u '' cozy\",\"mood_tags\":[\"cozy\",\"quiet\"],\"key_themes\":[\"reading\"]}'')
          1 init_db = Some (Ok r)
        \<and> vs_place_id r = 1 \<and> vs_summary r = [0x2615] @ u '' cozy''
        \<and> vs_mood_tags r = [u ''cozy'', u ''quiet''] \<and> vs_key_themes r = [u ''reading''])"
proof -
  let ?d = "[(u ''summary'', JStr ([0x2615] @ u '' cozy'')),
             (u ''mood_tags'', JArr (map JStr [u ''cozy'', u ''quiet''])),
             (u ''key_themes'', JArr (map JStr [u ''reading'']))]"
  have h1: "json_loads (u ''{\"summary\":\"'' @ [0x2615] @ u '' cozy\",\"mood_tags\":[\"cozy\",\"quiet\"],\"key_themes\":[\"reading\"]}'')
     = Inr (JObj ?d)"
    by code_simp
  have h2: "bind_text_not_null (sqlite_real_text (sample_env []))
              (dict_get ?d (u ''summary'') (JStr (u ''No summary provided.'')))
            = Inr ([0x2615] @ u '' cozy'')"
    by code_simp
  have h3: "dict_get ?d (u ''mood_tags'') (JArr []) = JArr (map JStr [u ''cozy'', u ''quiet''])"
    by code_simp
  have h4: "dict_get ?d (u ''key_themes'') (JArr []) = JArr (map JStr [u ''reading''])"
    by code_simp
  have h5: "list_all utf8_encodable [u ''cozy'', u ''quiet'']" by code_simp
  have h6: "list_all utf8_encodable [u ''reading'']" by code_simp
  have h7: "fits_int64 1" by code_simp
  show ?thesis
    using h1 tag_lists_round_trip [OF h1 h2 h3 h4 h5 h6 h7, of init_db] by blast
qed
section \<open>What the Summarizer returns\<close>









section \<open>The Review Store: what each operation changes\<close>

lemma insert_review_result:
  assumes "insert_review place_id src txt db = Inr db'"
  shows "db' = db \<lparr> reviews := reviews db @
                     [\<lparr> r_id = seq_reviews db + 1, r_place_id = place_id, r_source = src,
                        r_content = txt, r_rating = None, r_date = None \<rparr>],
                   seq_reviews := seq_reviews db + 1 \<rparr>"
  using assms
  by (auto simp: insert_review_def bind_str_def bind_int_def Let_def split: if_splits)

lemma insert_reviews_result:
  "insert_reviews place_id src texts (db, acc) = ((db', acc'), eo) \<Longrightarrow>
   \<exists>new. reviews db' = reviews db @ new
        \<and> acc' = acc @ map r_content new
        \<and> list_all (\<lambda>r. r_place_id r = place_id \<and> r_source r = src) new
        \<and> places db' = places db \<and> seq_places db' = seq_places db
        \<and> vibe_summaries db' = vibe_summaries db
        \<and> seq_vibe_summaries db' = seq_vibe_summaries db
        \<and> (eo = None \<longrightarrow> map r_content new = texts)"
proof (induction texts arbitrary: db acc)
  case Nil
  then show ?case by simp
next
  case (Cons t ts)
  show ?case
  proof (cases "insert_review place_id src t db")
    case (Inl e)
    with Cons.prems show ?thesis by auto
  next
    case (Inr db1)
    note db1 = insert_review_result [OF Inr]
    from Cons.prems Inr
    have "insert_reviews place_id src ts (db1, acc @ [t]) = ((db', acc'), eo)" by simp
    from Cons.IH [OF this] obtain new where
      new: "reviews db' = reviews db1 @ new" "acc' = (acc @ [t]) @ map r_content new"
        "list_all (\<lambda>r. r_place_id r = place_id \<and> r_source r = src) new"
        "places db' = places db1" "seq_places db' = seq_places db1"
        "vibe_summaries db' = vibe_summaries db1"
        "seq_vibe_summaries db' = seq_vibe_summaries db1"
        "eo = None \<longrightarrow> map r_content new = ts"
      by blast
    let ?row = "\<lparr> r_id = seq_reviews db + 1, r_place_id = place_id, r_source = src,
                  r_content = t, r_rating = None, r_date = None \<rparr>"
    show ?thesis
      by (rule exI [of _ "?row # new"]) (use new db1 in simp)
  qed
qed

lemma scrape_source_result:
  assumes a: "scrape_source name binding src place_id link (db, acc, caught) = (db', acc', caught')"
  shows "\<exists>new. reviews db' = reviews db @ new
        \<and> acc' = acc @ map r_content new
        \<and> list_all (\<lambda>r. r_place_id r = place_id \<and> r_source r = src) new
        \<and> places db' = places db \<and> seq_places db' = seq_places db
        \<and> vibe_summaries db' = vibe_summaries db
        \<and> seq_vibe_summaries db' = seq_vibe_summaries db"
proof (cases link)
  case None
  with a show ?thesis by (intro exI [of _ "[]"]) simp
next
  case (Some x)
  show ?thesis
  proof (cases "x = [] \<or> (\<exists>e. call_extractor name binding x = Inl e)")
    case True
    with a Some have "db' = db" "acc' = acc" by (auto split: sum.splits if_splits)
    then show ?thesis by (intro exI [of _ "[]"]) simp
  next
    case False
    then obtain texts where t: "call_extractor name binding x = Inr texts" and x: "x \<noteq> []"
      by (cases "call_extractor name binding x") auto
    obtain db2 acc2 eo where l: "insert_reviews place_id src texts (db, acc) = ((db2, acc2), eo)"
      by (metis prod.exhaust)
    from a Some t x l have "db' = db2" "acc' = acc2" by (auto split: option.splits)
    with insert_reviews_result [OF l] show ?thesis by blast
  qed
qed

lemma scrape_phase_result:
  assumes "scrape_phase g db place_id gu tu = (db', acc', caught')"
  shows "\<exists>new. reviews db' = reviews db @ new
        \<and> acc' = map r_content new
        \<and> list_all (\<lambda>r. r_place_id r = place_id) new
        \<and> places db' = places db \<and> seq_places db' = seq_places db
        \<and> vibe_summaries db' = vibe_summaries db
        \<and> seq_vibe_summaries db' = seq_vibe_summaries db"
proof -
  obtain db1 acc1 caught1 where
    s1: "scrape_source ''scrape_google_maps_reviews'' (scrape_google_maps_reviews g)
          (u ''Google Maps'') place_id gu (db, [], []) = (db1, acc1, caught1)"
    by (metis prod.exhaust)
  with assms have
    s2: "scrape_source ''scrape_tripadvisor_reviews'' (scrape_tripadvisor_reviews g)
          (u ''TripAdvisor'') place_id tu (db1, acc1, caught1) = (db', acc', caught')"
    by (simp add: scrape_phase_def)
  from scrape_source_result [OF s1] obtain n1 where
    n1: "reviews db1 = reviews db @ n1" "acc1 = [] @ map r_content n1"
      "list_all (\<lambda>r. r_place_id r = place_id \<and> r_source r = u ''Google Maps'') n1"
      "places db1 = places db" "seq_places db1 = seq_places db"
      "vibe_summaries db1 = vibe_summaries db" "seq_vibe_summaries db1 = seq_vibe_summaries db"
    by blast
  from scrape_source_result [OF s2] obtain n2 where
    n2: "reviews db' = reviews db1 @ n2" "acc' = acc1 @ map r_content n2"
      "list_all (\<lambda>r. r_place_id r = place_id \<and> r_source r = u ''TripAdvisor'') n2"
      "places db' = places db1" "seq_places db' = seq_places db1"
      "vibe_summaries db' = vibe_summaries db1" "seq_vibe_summaries db' = seq_vibe_summaries db1"
    by blast
  show ?thesis
    by (rule exI [of _ "n1 @ n2"]) (use n1 n2 in \<open>auto simp: list_all_iff\<close>)
qed

lemma update_vibe_result:
  assumes "update_vibe rt place_id summary m k db = Inr db'"
  shows "reviews db' = reviews db \<and> places db' = places db \<and> seq_places db' = seq_places db
         \<and> map v_place_id (vibe_summaries db') = map v_place_id (vibe_summaries db)
         \<and> map v_id (vibe_summaries db') = map v_id (vibe_summaries db)"
proof -
  have "\<And>f vs. (\<And>v. v_place_id (f v) = v_place_id v) \<Longrightarrow> map v_place_id (map f vs) = map v_place_id vs"
    by simp
  moreover have "\<And>f vs. (\<And>v. v_id (f v) = v_id v) \<Longrightarrow> map v_id (map f vs) = map v_id vs"
    by simp
  ultimately show ?thesis
    using assms
    by (cases "bind_text_not_null rt summary"; cases "bind_str m"; cases "bind_str k";
        cases "bind_int place_id")
       (auto simp: update_vibe_def)
qed

lemma insert_vibe_result:
  assumes "insert_vibe rt place_id summary m k db = Inr db'"
  shows "reviews db' = reviews db \<and> places db' = places db \<and> seq_places db' = seq_places db
         \<and> place_id \<notin> set (map v_place_id (vibe_summaries db))
         \<and> map v_place_id (vibe_summaries db') = map v_place_id (vibe_summaries db) @ [place_id]"
  using assms
  by (cases "bind_text_not_null rt summary"; cases "bind_str m"; cases "bind_str k";
      cases "fits_int64 place_id")
     (auto simp: insert_vibe_def bind_int_def Let_def list_ex_iff split: if_splits)

lemma upsert_result:
  assumes "upsert_vibe_summary g summary_json place_id db = Inr db'"
  shows "reviews db' = reviews db \<and> places db' = places db \<and> seq_places db' = seq_places db
         \<and> ((map v_place_id (vibe_summaries db') = map v_place_id (vibe_summaries db)
              \<and> map v_id (vibe_summaries db') = map v_id (vibe_summaries db))
             \<or> (place_id \<notin> set (map v_place_id (vibe_summaries db))
                 \<and> map v_place_id (vibe_summaries db') = map v_place_id (vibe_summaries db) @ [place_id]))"
proof -
  obtain v where l: "json_loads summary_json = Inr v"
    using assms by (cases "json_loads summary_json") (auto simp: upsert_vibe_summary_def)
  obtain d where d: "as_dict v = Inr d"
    using assms l by (cases "as_dict v") (auto simp: upsert_vibe_summary_def)
  obtain ex where ex: "select_vibe db place_id = Inr ex"
    using assms l d
    by (cases "select_vibe db place_id") (auto simp: upsert_vibe_summary_def Let_def)
  show ?thesis
  proof (cases ex)
    case None
    with assms l d ex show ?thesis
      using insert_vibe_result [of _ place_id _ _ _ db db']
      by (simp add: upsert_vibe_summary_def Let_def)
  next
    case (Some row)
    with assms l d ex show ?thesis
      using update_vibe_result [of _ place_id _ _ _ db db']
      by (simp add: upsert_vibe_summary_def Let_def)
  qed
qed

lemma run_result:
  fixes g db place_id nm gu tu
  defines "r \<equiv> scrape_and_store_reviews g db place_id nm gu tu"
  shows "places (run_db r) = places db \<and> seq_places (run_db r) = seq_places db
         \<and> (\<exists>new. reviews (run_db r) = reviews db @ new
                \<and> list_all (\<lambda>x. r_place_id x = place_id) new
                \<and> map r_content new = reviews_of_run g db place_id gu tu)
         \<and> ((map v_place_id (vibe_summaries (run_db r)) = map v_place_id (vibe_summaries db)
              \<and> map v_id (vibe_summaries (run_db r)) = map v_id (vibe_summaries db))
             \<or> (place_id \<notin> set (map v_place_id (vibe_summaries db))
                 \<and> map v_place_id (vibe_summaries (run_db r))
                     = map v_place_id (vibe_summaries db) @ [place_id]))"
proof -
  obtain db1 acc caught where p: "scrape_phase g db place_id gu tu = (db1, acc, caught)"
    by (metis prod.exhaust)
  from scrape_phase_result [OF p] obtain new where
    new: "reviews db1 = reviews db @ new" "list_all (\<lambda>r. r_place_id r = place_id) new"
      "places db1 = places db" "seq_places db1 = seq_places db"
      "vibe_summaries db1 = vibe_summaries db"
      "map r_content new = reviews_of_run g db place_id gu tu"
    unfolding reviews_of_run_def p by auto
  show ?thesis
  proof (cases "acc = []")
    case True
    then have "run_db r = db1" by (simp add: r_def scrape_and_store_reviews_def p)
    then show ?thesis using new by auto
  next
    case False
    obtain reqs sj where
      s: "summarize_reviews (py_float_repr g) (openai_api_key g) (openai_acreate g) acc = (reqs, sj)"
      by (metis prod.exhaust)
    show ?thesis
    proof (cases "upsert_vibe_summary g sj place_id db1")
      case (Inl e)
      then have "run_db r = db1" using False by (simp add: r_def scrape_and_store_reviews_def p s)
      then show ?thesis using new by auto
    next
      case (Inr db2)
      then have "run_db r = db2" using False by (simp add: r_def scrape_and_store_reviews_def p s)
      then show ?thesis using upsert_result [OF Inr] new by auto
    qed
  qed
qed

lemma run_return_count:
  "run_return (scrape_and_store_reviews g db place_id nm gu tu) = Some (n, b) \<Longrightarrow>
   n = length (reviews_of_run g db place_id gu tu) \<and> b = (reviews_of_run g db place_id gu tu \<noteq> [])"
proof -
  assume a: "run_return (scrape_and_store_reviews g db place_id nm gu tu) = Some (n, b)"
  obtain db1 acc caught where p: "scrape_phase g db place_id gu tu = (db1, acc, caught)"
    by (metis prod.exhaust)
  obtain reqs sj where
    s: "summarize_reviews (py_float_repr g) (openai_api_key g) (openai_acreate g) acc = (reqs, sj)"
    by (metis prod.exhaust)
  have acc: "reviews_of_run g db place_id gu tu = acc" by (simp add: reviews_of_run_def p)
  show ?thesis
  proof (cases "acc = []")
    case True
    with a show ?thesis unfolding acc by (auto simp: scrape_and_store_reviews_def p)
  next
    case False
    with a show ?thesis unfolding acc
      by (cases "upsert_vibe_summary g sj place_id db1")
         (auto simp: scrape_and_store_reviews_def p s)
  qed
qed

lemma insert_place_result:
  assumes "insert_place n c g a la lo db = Inr (db', rowid)"
  shows "rowid = seq_places db + 1 \<and> seq_places db' = rowid
         \<and> (\<exists>row. places db' = places db @ [row] \<and> p_id row = rowid \<and> p_name row = n
                  \<and> p_city row = c \<and> p_category row = g)
         \<and> reviews db' = reviews db \<and> vibe_summaries db' = vibe_summaries db"
  using assms
  by (cases "bind_str n"; cases "bind_str c"; cases "bind_str g"; cases "bind_opt_str a")
     (auto simp: insert_place_def Let_def bind_str_def split: if_splits)

lemma consistent_insert_place:
  assumes c: "consistent \<lparr> app_db = db, app_tasks = ts \<rparr>"
    and i: "insert_place n c g a la lo db = Inr (db', rowid)"
    and that: "list_all (\<lambda>t. fst t = rowid) extra"
  shows "consistent \<lparr> app_db = db', app_tasks = ts @ extra \<rparr>"
proof -
  from insert_place_result [OF i] obtain row where
    r: "rowid = seq_places db + 1" "seq_places db' = rowid" "places db' = places db @ [row]"
      "p_id row = rowid" "reviews db' = reviews db" "vibe_summaries db' = vibe_summaries db"
    by blast
  have fresh: "rowid \<notin> set (map p_id (places db))"
    using c r(1) by (auto simp: consistent_def list_all_iff)
  show ?thesis
    using c that fresh r
    by (auto simp: consistent_def list_all_iff)
qed

lemma consistent_serve: "consistent s \<Longrightarrow> consistent (serve r s)"
proof (cases r)
  case (PostPlaces body)
  assume c: "consistent s"
  then have c': "consistent \<lparr> app_db = app_db s, app_tasks = app_tasks s \<rparr>"
    by (simp add: consistent_def)
  show ?thesis
  proof (cases "insert_place (b_name body) (b_city body) (b_category body)
                  (b_address body) (b_latitude body) (b_longitude body) (app_db s)")
    case (Inl e)
    then show ?thesis using c PostPlaces by (simp add: create_place_def)
  next
    case (Inr res)
    then obtain db' rowid where res: "res = (db', rowid)" by (cases res)
    from consistent_insert_place [OF c' Inr [unfolded res], of "[]"]
    have "consistent \<lparr> app_db = db', app_tasks = app_tasks s \<rparr>" by simp
    moreover have "serve r s = \<lparr> app_db = db', app_tasks = app_tasks s \<rparr>"
      using PostPlaces Inr res by (simp add: create_place_def)
    ultimately show ?thesis by simp
  qed
next
  case (PostScrapePlaceAndReviews req)
  assume c: "consistent s"
  then have c': "consistent \<lparr> app_db = app_db s, app_tasks = app_tasks s \<rparr>"
    by (simp add: consistent_def)
  show ?thesis
  proof (cases "insert_place (b_name req) (b_city req) (b_category req)
                  (b_address req) (b_latitude req) (b_longitude req) (app_db s)")
    case (Inl e)
    then have "serve r s = \<lparr> app_db = app_db s, app_tasks = app_tasks s \<rparr>"
      using PostScrapePlaceAndReviews by (simp add: create_place_and_scrape_reviews_def)
    then show ?thesis using c' by simp
  next
    case (Inr res)
    then obtain db' rowid where res: "res = (db', rowid)" by (cases res)
    let ?t = "(rowid, b_name req, b_google_maps_url req, b_tripadvisor_url req)"
    from consistent_insert_place [OF c' Inr [unfolded res], of "[?t]"]
    have "consistent \<lparr> app_db = db', app_tasks = app_tasks s @ [?t] \<rparr>" by simp
    moreover have "serve r s = \<lparr> app_db = db', app_tasks = app_tasks s @ [?t] \<rparr>"
      using PostScrapePlaceAndReviews Inr res by (simp add: create_place_and_scrape_reviews_def)
    ultimately show ?thesis by simp
  qed
next
  case (PostScrapeReviews req)
  assume c: "consistent s"
  show ?thesis
  proof (cases "select_place (app_db s) (sr_place_id req)")
    case (Inl e)
    then show ?thesis using c PostScrapeReviews by (simp add: scrape_reviews_def)
  next
    case (Inr found)
    show ?thesis
    proof (cases found)
      case None
      then show ?thesis using c PostScrapeReviews Inr by (simp add: scrape_reviews_def)
    next
      case (Some p)
      from select_place_Inr [OF Inr] Some
      have "find (\<lambda>p. p_id p = sr_place_id req) (places (app_db s)) = Some p" by simp
      then have "p \<in> set (places (app_db s))" "p_id p = sr_place_id req"
        by (auto simp: find_Some_iff)
      then have "sr_place_id req \<in> set (map p_id (places (app_db s)))" by force
      then show ?thesis using c PostScrapeReviews Inr Some
        by (simp add: scrape_reviews_def consistent_def)
    qed
  qed
qed

lemma consistent_run_task:
  assumes c: "consistent s" and i: "i < length (app_tasks s)"
  shows "consistent (run_task g i s)"
proof -
  obtain pid nm gu tu where t: "app_tasks s ! i = (pid, nm, gu, tu)"
    by (metis prod.exhaust)
  let ?r = "scrape_and_store_reviews g (app_db s) pid nm gu tu"
  have s': "run_task g i s = \<lparr> app_db = run_db ?r,
            app_tasks = take i (app_tasks s) @ drop (Suc i) (app_tasks s) \<rparr>"
    by (simp add: run_task_def t)
  have "app_tasks s ! i \<in> set (app_tasks s)" using i by simp
  then have pid: "pid \<in> set (map p_id (places (app_db s)))"
    using c t by (auto simp: consistent_def list_all_iff)
  have sub: "set (take i (app_tasks s) @ drop (Suc i) (app_tasks s)) \<subseteq> set (app_tasks s)"
    using set_take_subset set_drop_subset by fastforce
  from run_result [of g "app_db s" pid nm gu tu] obtain new where
    f: "places (run_db ?r) = places (app_db s)" "seq_places (run_db ?r) = seq_places (app_db s)"
       "reviews (run_db ?r) = reviews (app_db s) @ new" "list_all (\<lambda>x. r_place_id x = pid) new"
    and v: "(map v_place_id (vibe_summaries (run_db ?r)) = map v_place_id (vibe_summaries (app_db s)))
            \<or> (pid \<notin> set (map v_place_id (vibe_summaries (app_db s)))
                \<and> map v_place_id (vibe_summaries (run_db ?r))
                    = map v_place_id (vibe_summaries (app_db s)) @ [pid])"
    by blast
  have d: "distinct (map v_place_id (vibe_summaries (run_db ?r)))"
    using v c by (auto simp: consistent_def)
  have "set (map v_place_id (vibe_summaries (run_db ?r)))
        \<subseteq> insert pid (set (map v_place_id (vibe_summaries (app_db s))))"
  proof (rule disjE [OF v])
    assume "map v_place_id (vibe_summaries (run_db ?r)) = map v_place_id (vibe_summaries (app_db s))"
    from arg_cong [OF this, of set] show ?thesis by blast
  next
    assume "pid \<notin> set (map v_place_id (vibe_summaries (app_db s)))
                \<and> map v_place_id (vibe_summaries (run_db ?r))
                    = map v_place_id (vibe_summaries (app_db s)) @ [pid]"
    then have "map v_place_id (vibe_summaries (run_db ?r))
                    = map v_place_id (vibe_summaries (app_db s)) @ [pid]" by blast
    from arg_cong [OF this, of set] show ?thesis by auto
  qed
  moreover have "set (map v_place_id (vibe_summaries (app_db s))) \<subseteq> set (map p_id (places (app_db s)))"
    using c by (auto simp: consistent_def list_all_iff)
  ultimately have m: "set (map v_place_id (vibe_summaries (run_db ?r)))
           \<subseteq> set (map p_id (places (app_db s)))"
    using pid by blast
  have m': "list_all (\<lambda>v. v_place_id v \<in> set (map p_id (places (app_db s))))
              (vibe_summaries (run_db ?r))"
    using m by (auto simp: list_all_iff)
  show ?thesis
    unfolding s' using c f d m' pid sub
    by (auto simp: consistent_def list_all_iff)
qed

lemma reachable_consistent: "reachable s \<Longrightarrow> consistent s"
proof (induction rule: reachable.induct)
  case startup
  show ?case by (simp add: consistent_def init_db_def)
next
  case (request s r)
  then show ?case by (simp add: consistent_serve)
next
  case (background s i g)
  then show ?case by (simp add: consistent_run_task)
qed

lemma select_place_None:
  "fits_int64 pid \<Longrightarrow>
   select_place db pid = Inr None \<longleftrightarrow> pid \<notin> set (map p_id (places db))"
  by (auto simp: select_place_fits find_None_iff)

lemma select_vibe_None:
  "fits_int64 pid \<Longrightarrow>
   select_vibe db pid = Inr None \<longleftrightarrow> pid \<notin> set (map v_place_id (vibe_summaries db))"
  by (auto simp: select_vibe_fits find_None_iff)

lemma distinct_map_filter_le1:
  "distinct (map f xs) \<Longrightarrow> length (filter (\<lambda>x. f x = k) xs) \<le> 1"
proof (induction xs)
  case Nil
  then show ?case by simp
next
  case (Cons x xs)
  show ?case
  proof (cases "f x = k")
    case True
    from Cons.prems have "f x \<notin> f ` set xs" by simp
    then have "\<And>y. y \<in> set xs \<Longrightarrow> f y \<noteq> k" unfolding True [symmetric] by (metis imageI)
    then have "filter (\<lambda>x. f x = k) xs = []"
      by (simp add: filter_empty_conv)
    with True show ?thesis by simp
  next
    case False
    with Cons show ?thesis by simp
  qed
qed

lemma upsert_success_stores:
  assumes up: "upsert_vibe_summary g summary_json place_id db = Inr db'"
    and l: "json_loads summary_json = Inr (JObj d)"
  shows "\<exists>row. select_vibe db' place_id = Inr (Some row)
           \<and> v_place_id row = place_id
           \<and> bind_text_not_null (sqlite_real_text g)
                (dict_get d (u ''summary'') (JStr (u ''No summary provided.'')))
               = Inr (v_summary row)
           \<and> utf8_encodable (v_summary row)
           \<and> v_mood_tags row = json_dumps (py_float_repr g) (dict_get d (u ''mood_tags'') (JArr []))
           \<and> v_key_themes row = json_dumps (py_float_repr g) (dict_get d (u ''key_themes'') (JArr []))"
proof -
  let ?s = "dict_get d (u ''summary'') (JStr (u ''No summary provided.''))"
  let ?m = "json_dumps (py_float_repr g) (dict_get d (u ''mood_tags'') (JArr []))"
  let ?k = "json_dumps (py_float_repr g) (dict_get d (u ''key_themes'') (JArr []))"
  have w: "and_then (select_vibe db place_id) (\<lambda>existing.
             case existing of
               None \<Rightarrow> insert_vibe (sqlite_real_text g) place_id ?s ?m ?k db
             | Some row \<Rightarrow> update_vibe (sqlite_real_text g) place_id ?s ?m ?k db) = Inr db'"
    using up l by (simp add: upsert_vibe_summary_def Let_def)
  from and_then_Inr [OF w] obtain ex where ex: "select_vibe db place_id = Inr ex"
    and w': "(case ex of
               None \<Rightarrow> insert_vibe (sqlite_real_text g) place_id ?s ?m ?k db
             | Some row \<Rightarrow> update_vibe (sqlite_real_text g) place_id ?s ?m ?k db) = Inr db'"
    by blast
  have f: "fits_int64 place_id" using select_vibe_Inr [OF ex] by blast
  have "\<exists>s. bind_text_not_null (sqlite_real_text g) ?s = Inr s
            \<and> utf8_encodable ?m \<and> utf8_encodable ?k"
  proof (cases ex)
    case None
    with w' have "insert_vibe (sqlite_real_text g) place_id ?s ?m ?k db = Inr db'" by simp
    then show ?thesis
      by (cases "bind_text_not_null (sqlite_real_text g) ?s"; cases "utf8_encodable ?m";
          cases "utf8_encodable ?k")
         (simp_all add: insert_vibe_def bind_str_def bind_int_def f)
  next
    case (Some row)
    with w' have "update_vibe (sqlite_real_text g) place_id ?s ?m ?k db = Inr db'" by simp
    then show ?thesis
      by (cases "bind_text_not_null (sqlite_real_text g) ?s"; cases "utf8_encodable ?m";
          cases "utf8_encodable ?k")
         (simp_all add: update_vibe_def bind_str_def)
  qed
  then obtain s where s: "bind_text_not_null (sqlite_real_text g) ?s = Inr s"
    and m: "utf8_encodable ?m" and k: "utf8_encodable ?k" by blast
  from upsert_stores [OF l s m k f, of db] up s bind_text_not_null_encodable [OF s]
  show ?thesis by auto
qed

lemma run_success:
  assumes "run_return (scrape_and_store_reviews g db place_id nm gu tu) = Some (n, True)"
  shows "1 \<le> n \<and> upsert_vibe_summary g (summary_of_run g db place_id gu tu) place_id
            (fst (scrape_phase g db place_id gu tu))
         = Inr (run_db (scrape_and_store_reviews g db place_id nm gu tu))"
proof -
  obtain db1 acc caught where p: "scrape_phase g db place_id gu tu = (db1, acc, caught)"
    by (metis prod.exhaust)
  obtain reqs sj where
    s: "summarize_reviews (py_float_repr g) (openai_api_key g) (openai_acreate g) acc = (reqs, sj)"
    by (metis prod.exhaust)
  have sj: "summary_of_run g db place_id gu tu = sj"
    by (simp add: summary_of_run_def reviews_of_run_def p s)
  show ?thesis
  proof (cases "acc = []")
    case True
    with assms show ?thesis by (simp add: scrape_and_store_reviews_def p)
  next
    case False
    then have "1 \<le> length acc" by (cases acc) simp_all
    with assms False show ?thesis
      by (cases "upsert_vibe_summary g sj place_id db1")
         (simp_all add: scrape_and_store_reviews_def p s sj)
  qed
qed

lemma shipped_run:
  "run_db (scrape_and_store_reviews (shipped key net fr rt) db place_id nm gu tu) = db
   \<and> run_requests (scrape_and_store_reviews (shipped key net fr rt) db place_id nm gu tu) = []
   \<and> run_return (scrape_and_store_reviews (shipped key net fr rt) db place_id nm gu tu)
       = Some (0, False)"
  by (cases gu; cases tu)
     (simp_all add: scrape_and_store_reviews_def scrape_phase_def shipped_def call_extractor_def)

lemma insert_reviews_all:
  "fits_int64 place_id \<Longrightarrow> utf8_encodable src \<Longrightarrow> list_all utf8_encodable texts \<Longrightarrow>
   \<exists>db'. insert_reviews place_id src texts (db, acc) = ((db', acc @ texts), None)"
proof (induction texts arbitrary: db acc)
  case Nil
  then show ?case by simp
next
  case (Cons t ts)
  let ?db1 = "db \<lparr> reviews := reviews db @
                     [\<lparr> r_id = seq_reviews db + 1, r_place_id = place_id, r_source = src,
                        r_content = t, r_rating = None, r_date = None \<rparr>],
                   seq_reviews := seq_reviews db + 1 \<rparr>"
  have i: "insert_review place_id src t db = Inr ?db1"
    using Cons.prems by (simp add: insert_review_def bind_str_def bind_int_def Let_def)
  from Cons.IH [of ?db1 "acc @ [t]"] Cons.prems
  obtain db' where "insert_reviews place_id src ts (?db1, acc @ [t]) = ((db', (acc @ [t]) @ ts), None)"
    by auto
  then show ?case using i by simp
qed

lemma reachable_blue_cup_scraped: "reachable blue_cup_scraped"
proof -
  have i: "0 < length (app_tasks (serve (PostScrapePlaceAndReviews blue_cup)
              \<lparr> app_db = init_db, app_tasks = [] \<rparr>))"
    by code_simp
  show ?thesis
    unfolding blue_cup_scraped_def
    by (rule reachable.background [OF reachable.request [OF reachable.startup] i])
qed

lemma reachable_two_places: "reachable two_places"
  unfolding two_places_def
  by (rule reachable.request [OF reachable.request [OF reachable.startup]])

section \<open>The places table\<close>

text \<open>
  Claim C8, as amended. In every state reachable through the API, every row of the places
  table has an id of its own. Nothing keeps the name, the city or the category of a row
  from being the empty string.
\<close>

theorem place_ids_unique:
  "reachable s \<Longrightarrow> distinct (map p_id (places (app_db s)))"
  using reachable_consistent [of s] by (simp add: consistent_def)

theorem place_ids_unique_witness:
  "reachable two_places
   \<and> map p_id (places (app_db two_places)) = [1, 2]
   \<and> distinct (map p_id (places (app_db two_places)))"
proof -
  have r: "reachable two_places" by (rule reachable_two_places)
  have i: "map p_id (places (app_db two_places)) = [1, 2]" by code_simp
  show ?thesis by (rule conjI [OF r conjI [OF i place_ids_unique [OF r]]])
qed

text \<open>
  The claim as stated, with non-empty name, city and category, fails: \<open>POST /places/\<close>
  with three empty strings stores the row.
\<close>

theorem places_nonempty_fields_counterexample:
  "reachable (serve (PostPlaces \<lparr> b_name = [], b_city = [], b_category = [],
                 b_address = None, b_latitude = None, b_longitude = None \<rparr>)
               \<lparr> app_db = init_db, app_tasks = [] \<rparr>)
   \<and> places (app_db (serve (PostPlaces \<lparr> b_name = [], b_city = [], b_category = [],
                 b_address = None, b_latitude = None, b_longitude = None \<rparr>)
               \<lparr> app_db = init_db, app_tasks = [] \<rparr>))
       = [\<lparr> p_id = 1, p_name = [], p_city = [], p_category = [],
             p_address = None, p_latitude = None, p_longitude = None \<rparr>]"
proof -
  have r: "reachable (serve (PostPlaces \<lparr> b_name = [], b_city = [], b_category = [],
                 b_address = None, b_latitude = None, b_longitude = None \<rparr>)
               \<lparr> app_db = init_db, app_tasks = [] \<rparr>)"
    by (rule reachable.request [OF reachable.startup])
  have p: "places (app_db (serve (PostPlaces \<lparr> b_name = [], b_city = [], b_category = [],
                 b_address = None, b_latitude = None, b_longitude = None \<rparr>)
               \<lparr> app_db = init_db, app_tasks = [] \<rparr>))
       = [\<lparr> p_id = 1, p_name = [], p_city = [], p_category = [],
             p_address = None, p_latitude = None, p_longitude = None \<rparr>]"
    by (simp add: create_place_def insert_place_def bind_str_def utf8_encodable_def init_db_def)
  show ?thesis by (rule conjI [OF r p])
qed

section \<open>Requests for a place that does not exist\<close>

text \<open>
  Claim C5, as amended. In every reachable state and for every place id that is not in the
  places table: if the id fits a signed 64-bit integer, \<open>GET /places/{id}\<close> and
  \<open>GET /places/{id}/vibe\<close> answer 404, \<open>POST /scrape/reviews\<close> answers 404, adds no
  background task and leaves the state as it is, and \<open>GET /places/{id}/reviews\<close> answers
  with the empty list; if the id does not fit, binding it fails and the four endpoints
  answer 500, again with no background task and the state as it is.
\<close>

theorem missing_place_not_found:
  "reachable s \<Longrightarrow> place_id \<notin> set (map p_id (places (app_db s))) \<Longrightarrow>
     (fits_int64 place_id \<longrightarrow>
        get_place (app_db s) place_id = HTTPException 404 (u ''Place not found'')
      \<and> get_vibe_summary (app_db s) place_id
          = HTTPException 404 (u ''Vibe summary not found. Scrape reviews first.'')
      \<and> get_reviews (app_db s) place_id = Ok []
      \<and> (sr_place_id req = place_id \<longrightarrow>
           scrape_reviews req (app_db s) (app_tasks s)
             = (HTTPException 404 (u ''Place not found''), app_tasks s)
           \<and> serve (PostScrapeReviews req) s = s))
   \<and> (\<not> fits_int64 place_id \<longrightarrow>
        get_place (app_db s) place_id = HTTPException 500 (u ''Internal Server Error'')
      \<and> get_vibe_summary (app_db s) place_id = HTTPException 500 (u ''Internal Server Error'')
      \<and> get_reviews (app_db s) place_id = HTTPException 500 (u ''Internal Server Error'')
      \<and> (sr_place_id req = place_id \<longrightarrow>
           scrape_reviews req (app_db s) (app_tasks s)
             = (HTTPException 500 (u ''Internal Server Error''), app_tasks s)
           \<and> serve (PostScrapeReviews req) s = s))"
proof (rule conjI; rule impI)
  assume r: "reachable s" and n: "place_id \<notin> set (map p_id (places (app_db s)))"
    and f: "fits_int64 place_id"
  have c: "consistent s" by (rule reachable_consistent [OF r])
  have p: "select_place (app_db s) place_id = Inr None"
    using n by (simp add: select_place_None [OF f])
  have "place_id \<notin> set (map v_place_id (vibe_summaries (app_db s)))"
    using c n by (auto simp: consistent_def list_all_iff)
  then have v: "select_vibe (app_db s) place_id = Inr None"
    by (simp add: select_vibe_None [OF f])
  have "\<forall>x \<in> set (reviews (app_db s)). r_place_id x \<noteq> place_id"
    using c n by (auto simp: consistent_def list_all_iff)
  then have "filter (\<lambda>x. r_place_id x = place_id) (reviews (app_db s)) = []"
    by (simp add: filter_empty_conv)
  then have e: "select_reviews (app_db s) place_id = Inr []"
    by (simp add: select_reviews_fits [OF f])
  show "get_place (app_db s) place_id = HTTPException 404 (u ''Place not found'')
      \<and> get_vibe_summary (app_db s) place_id
          = HTTPException 404 (u ''Vibe summary not found. Scrape reviews first.'')
      \<and> get_reviews (app_db s) place_id = Ok []
      \<and> (sr_place_id req = place_id \<longrightarrow>
           scrape_reviews req (app_db s) (app_tasks s)
             = (HTTPException 404 (u ''Place not found''), app_tasks s)
           \<and> serve (PostScrapeReviews req) s = s)"
    using p v e by (simp add: get_place_def get_vibe_summary_def get_reviews_def scrape_reviews_def)
next
  assume f: "\<not> fits_int64 place_id"
  have p: "select_place (app_db s) place_id
           = Inl (Raised ''OverflowError'' (u ''Python int too large to convert to SQLite INTEGER''))"
    and v: "select_vibe (app_db s) place_id
           = Inl (Raised ''OverflowError'' (u ''Python int too large to convert to SQLite INTEGER''))"
    and e: "select_reviews (app_db s) place_id
           = Inl (Raised ''OverflowError'' (u ''Python int too large to convert to SQLite INTEGER''))"
    using f by (simp_all add: select_place_def select_vibe_def select_reviews_def bind_int_def)
  show "get_place (app_db s) place_id = HTTPException 500 (u ''Internal Server Error'')
      \<and> get_vibe_summary (app_db s) place_id = HTTPException 500 (u ''Internal Server Error'')
      \<and> get_reviews (app_db s) place_id = HTTPException 500 (u ''Internal Server Error'')
      \<and> (sr_place_id req = place_id \<longrightarrow>
           scrape_reviews req (app_db s) (app_tasks s)
             = (HTTPException 500 (u ''Internal Server Error''), app_tasks s)
           \<and> serve (PostScrapeReviews req) s = s)"
    using p v e
    by (simp add: get_place_def get_vibe_summary_def get_reviews_def scrape_reviews_def
        internal_server_error_def)
qed

text \<open>
  The claim as stated, with a not-found error from every read endpoint, fails: after Blue
  Cup was created and scraped, \<open>GET /places/999/reviews\<close> answers with the empty list.
\<close>

theorem missing_place_not_found_counterexample:
  "reachable blue_cup_scraped
   \<and> 999 \<notin> set (map p_id (places (app_db blue_cup_scraped)))
   \<and> get_reviews (app_db blue_cup_scraped) 999 = Ok []"
proof -
  have "999 \<notin> set (map p_id (places (app_db blue_cup_scraped)))
        \<and> get_reviews (app_db blue_cup_scraped) 999 = Ok []"
    by code_simp
  then show ?thesis using reachable_blue_cup_scraped by blast
qed

theorem missing_place_not_found_witness:
  "reachable blue_cup_scraped
   \<and> map p_id (places (app_db blue_cup_scraped)) = [1]
   \<and> map v_place_id (vibe_summaries (app_db blue_cup_scraped)) = [1]
   \<and> 999 \<notin> set (map p_id (places (app_db blue_cup_scraped)))
   \<and> fits_int64 999
   \<and> get_place (app_db blue_cup_scraped) 999 = HTTPException 404 (u ''Place not found'')
   \<and> get_vibe_summary (app_db blue_cup_scraped) 999
       = HTTPException 404 (u ''Vibe summary not found. Scrape reviews first.'')
   \<and> scrape_reviews \<lparr> sr_place_id = 999, sr_place_name = u ''Nowhere'',
                       sr_google_maps_url = Some (u ''https://maps.example/1''),
                       sr_tripadvisor_url = None \<rparr>
        (app_db blue_cup_scraped) (app_tasks blue_cup_scraped)
       = (HTTPException 404 (u ''Place not found''), app_tasks blue_cup_scraped)
   \<and> 9223372036854775808 \<notin> set (map p_id (places (app_db blue_cup_scraped)))
   \<and> \<not> fits_int64 9223372036854775808
   \<and> get_place (app_db blue_cup_scraped) 9223372036854775808
       = HTTPException 500 (u ''Internal Server Error'')
   \<and> get_reviews (app_db blue_cup_scraped) 9223372036854775808
       = HTTPException 500 (u ''Internal Server Error'')"
proof -
  have i: "map p_id (places (app_db blue_cup_scraped)) = [1]"
    and j: "map v_place_id (vibe_summaries (app_db blue_cup_scraped)) = [1]"
    by code_simp+
  have n: "999 \<notin> set (map p_id (places (app_db blue_cup_scraped)))"
    and m: "9223372036854775808 \<notin> set (map p_id (places (app_db blue_cup_scraped)))"
    unfolding i by simp_all
  have f: "fits_int64 999" and o: "\<not> fits_int64 9223372036854775808"
    by (simp_all add: fits_int64_def)
  show ?thesis
    using i j n m f o reachable_blue_cup_scraped
      missing_place_not_found [OF reachable_blue_cup_scraped n,
        of "\<lparr> sr_place_id = 999, sr_place_name = u ''Nowhere'',
              sr_google_maps_url = Some (u ''https://maps.example/1''),
              sr_tripadvisor_url = None \<rparr>"]
      missing_place_not_found [OF reachable_blue_cup_scraped m]
    by simp
qed

section \<open>Reading the summary after a cycle\<close>

text \<open>
  Claim C4, as amended. For every place id that fits a signed 64-bit integer and has no row
  in \<open>vibe_summaries\<close>, \<open>GET /places/{id}/vibe\<close> answers 404; for an id that does not fit
  it answers 500. After a run of the background task that returned \<open>(n, True)\<close>, at least
  one review was collected, and if the Summarizer's payload holds \<open>mood_tags\<close> and
  \<open>key_themes\<close> that are lists of strings with no surrogate code point,
  \<open>GET /places/{id}/vibe\<close> answers with the summary as it was stored and with these two
  lists.
\<close>

theorem vibe_summary_after_cycle:
  "(fits_int64 place_id \<and> place_id \<notin> set (map v_place_id (vibe_summaries db)) \<longrightarrow>
      get_vibe_summary db place_id
        = HTTPException 404 (u ''Vibe summary not found. Scrape reviews first.''))
   \<and> (\<not> fits_int64 place_id \<longrightarrow>
      get_vibe_summary db place_id = HTTPException 500 (u ''Internal Server Error''))
   \<and> (run_return (scrape_and_store_reviews g db place_id nm gu tu) = Some (n, True)
        \<and> json_loads (summary_of_run g db place_id gu tu) = Inr (JObj d)
        \<and> dict_get d (u ''mood_tags'') (JArr []) = JArr (map JStr ms)
        \<and> dict_get d (u ''key_themes'') (JArr []) = JArr (map JStr ks)
        \<and> list_all utf8_encodable ms \<and> list_all utf8_encodable ks
      \<longrightarrow> 1 \<le> n
          \<and> (\<exists>r. get_vibe_summary (run_db (scrape_and_store_reviews g db place_id nm gu tu)) place_id
                    = Ok r
                 \<and> vs_place_id r = place_id
                 \<and> bind_text_not_null (sqlite_real_text g)
                      (dict_get d (u ''summary'') (JStr (u ''No summary provided.'')))
                     = Inr (vs_summary r)
                 \<and> vs_mood_tags r = ms \<and> vs_key_themes r = ks))"
proof (rule conjI [OF _ conjI]; rule impI)
  assume "fits_int64 place_id \<and> place_id \<notin> set (map v_place_id (vibe_summaries db))"
  then have "select_vibe db place_id = Inr None" by (simp add: select_vibe_None)
  then show "get_vibe_summary db place_id
        = HTTPException 404 (u ''Vibe summary not found. Scrape reviews first.'')"
    by (simp add: get_vibe_summary_def)
next
  assume "\<not> fits_int64 place_id"
  then show "get_vibe_summary db place_id = HTTPException 500 (u ''Internal Server Error'')"
    by (simp add: get_vibe_summary_def select_vibe_def bind_int_def internal_server_error_def)
next
  assume a: "run_return (scrape_and_store_reviews g db place_id nm gu tu) = Some (n, True)
        \<and> json_loads (summary_of_run g db place_id gu tu) = Inr (JObj d)
        \<and> dict_get d (u ''mood_tags'') (JArr []) = JArr (map JStr ms)
        \<and> dict_get d (u ''key_themes'') (JArr []) = JArr (map JStr ks)
        \<and> list_all utf8_encodable ms \<and> list_all utf8_encodable ks"
  let ?R = "scrape_and_store_reviews g db place_id nm gu tu"
  from a have run: "run_return ?R = Some (n, True)"
    and l: "json_loads (summary_of_run g db place_id gu tu) = Inr (JObj d)"
    and mt: "dict_get d (u ''mood_tags'') (JArr []) = JArr (map JStr ms)"
    and kt: "dict_get d (u ''key_themes'') (JArr []) = JArr (map JStr ks)"
    and v: "list_all utf8_encodable ms" "list_all utf8_encodable ks"
    by blast+
  from run_success [OF run] have n: "1 \<le> n"
    and up: "upsert_vibe_summary g (summary_of_run g db place_id gu tu) place_id
               (fst (scrape_phase g db place_id gu tu)) = Inr (run_db ?R)"
    by blast+
  from upsert_success_stores [OF up l] obtain row where
    row: "select_vibe (run_db ?R) place_id = Inr (Some row)" "v_place_id row = place_id"
      "bind_text_not_null (sqlite_real_text g)
         (dict_get d (u ''summary'') (JStr (u ''No summary provided.''))) = Inr (v_summary row)"
      "utf8_encodable (v_summary row)"
      "v_mood_tags row = json_dumps (py_float_repr g) (JArr (map JStr ms))"
      "v_key_themes row = json_dumps (py_float_repr g) (JArr (map JStr ks))"
    unfolding mt kt by blast
  have "get_vibe_summary (run_db ?R) place_id =
           Ok \<lparr> vs_id = Some (v_id row), vs_place_id = v_place_id row, vs_summary = v_summary row,
                vs_mood_tags = ms, vs_key_themes = ks \<rparr>"
    by (rule get_vibe_summary_row [OF row(1,5,6) v row(4)])
  then have "\<exists>r. get_vibe_summary (run_db ?R) place_id = Ok r
                 \<and> vs_place_id r = place_id
                 \<and> bind_text_not_null (sqlite_real_text g)
                      (dict_get d (u ''summary'') (JStr (u ''No summary provided.'')))
                     = Inr (vs_summary r)
                 \<and> vs_mood_tags r = ms \<and> vs_key_themes r = ks"
    using row(2,3) by simp
  with n show "1 \<le> n
          \<and> (\<exists>r. get_vibe_summary (run_db ?R) place_id = Ok r
                 \<and> vs_place_id r = place_id
                 \<and> bind_text_not_null (sqlite_real_text g)
                      (dict_get d (u ''summary'') (JStr (u ''No summary provided.'')))
                     = Inr (vs_summary r)
                 \<and> vs_mood_tags r = ms \<and> vs_key_themes r = ks)"
    by blast
qed

text \<open>
  The claim as stated, for every successful cycle, fails: a payload whose \<open>mood_tags\<close> is
  \<open>null\<close> is stored, the run returns \<open>(2, True)\<close>, and the read endpoint then fails the
  validation of its response model and answers 500.
\<close>

theorem vibe_summary_after_cycle_counterexample:
  "run_return (scrape_and_store_reviews (sample_env null_tags_reply) init_db 1 (u ''Blue Cup'')
      (Some (u ''https://maps.example/blue-cup'')) None) = Some (2, True)
   \<and> get_vibe_summary (run_db (scrape_and_store_reviews (sample_env null_tags_reply) init_db 1
      (u ''Blue Cup'') (Some (u ''https://maps.example/blue-cup'')) None)) 1
     = HTTPException 500 (u ''Internal Server Error'')"
  by code_simp

theorem vibe_summary_after_cycle_witness:
  "fits_int64 1 \<and> 1 \<notin> set (map v_place_id (vibe_summaries init_db))
   \<and> get_vibe_summary init_db 1
        = HTTPException 404 (u ''Vibe summary not found. Scrape reviews first.'')
   \<and> \<not> fits_int64 (- 9223372036854775809)
   \<and> get_vibe_summary init_db (- 9223372036854775809)
        = HTTPException 500 (u ''Internal Server Error'')
   \<and> run_return (scrape_and_store_reviews (sample_env cozy_reply) init_db 1 (u ''Blue Cup'')
        (Some (u ''https://maps.example/blue-cup'')) None) = Some (2, True)
   \<and> (\<exists>r. get_vibe_summary (run_db (scrape_and_store_reviews (sample_env cozy_reply) init_db 1
              (u ''Blue Cup'') (Some (u ''https://maps.example/blue-cup'')) None)) 1 = Ok r
          \<and> vs_place_id r = 1
          \<and> Inr ([0x2615] @ u '' cozy'') = (Inr (vs_summary r) :: exn + ustr)
          \<and> vs_mood_tags r = [u ''cozy'', u ''quiet''] \<and> vs_key_themes r = [u ''reading''])"
proof -
  let ?d = "[(u ''summary'', JStr ([0x2615] @ u '' cozy'')),
             (u ''mood_tags'', JArr (map JStr [u ''cozy'', u ''quiet''])),
             (u ''key_themes'', JArr (map JStr [u ''reading'']))]"
  let ?g = "Some (u ''https://maps.example/blue-cup'')"
  have h0: "fits_int64 1 \<and> 1 \<notin> set (map v_place_id (vibe_summaries init_db))" by code_simp
  have hm: "\<not> fits_int64 (- 9223372036854775809)" by (simp add: fits_int64_def)
  have h1: "run_return (scrape_and_store_reviews (sample_env cozy_reply) init_db 1 (u ''Blue Cup'')
        ?g None) = Some (2, True)" by code_simp
  have h2: "json_loads (summary_of_run (sample_env cozy_reply) init_db 1 ?g None) = Inr (JObj ?d)"
    by code_simp
  have h3: "dict_get ?d (u ''mood_tags'') (JArr []) = JArr (map JStr [u ''cozy'', u ''quiet''])"
    by code_simp
  have h4: "dict_get ?d (u ''key_themes'') (JArr []) = JArr (map JStr [u ''reading''])"
    by code_simp
  have h5: "list_all utf8_encodable [u ''cozy'', u ''quiet'']" by code_simp
  have h6: "list_all utf8_encodable [u ''reading'']" by code_simp
  have h9: "bind_text_not_null (sqlite_real_text (sample_env cozy_reply))
              (dict_get ?d (u ''summary'') (JStr (u ''No summary provided.'')))
            = Inr ([0x2615] @ u '' cozy'')" by code_simp
  show ?thesis
    using h0 hm h1 h2 h3 h4 h5 h6
      vibe_summary_after_cycle [of 1 init_db "sample_env cozy_reply" "u ''Blue Cup''" ?g None 2
        ?d "[u ''cozy'', u ''quiet'']" "[u ''reading'']"]
      vibe_summary_after_cycle [of "- 9223372036854775809" init_db]
    unfolding h9 by blast
qed

section \<open>One summary for a place\<close>

text \<open>
  Claim C3. In every reachable state \<open>vibe_summaries\<close> holds at most one row for a place
  id, and so it does after a run of the background task from that state. When the place has
  a summary row, the run inserts no row: the rows keep their ids and their places. When the
  run returns \<open>(n, True)\<close>, the row of the place holds the payload of that run. The reviews
  table after the run is the reviews table before it followed by new rows, one for each
  review text the run collected, in their order and for this place; when the run returns
  \<open>(m, b)\<close>, there are \<open>m\<close> of them.
\<close>

theorem one_summary_per_place:
  "reachable s \<Longrightarrow>
   length (filter (\<lambda>v. v_place_id v = k) (vibe_summaries (app_db s))) \<le> 1
   \<and> length (filter (\<lambda>v. v_place_id v = k)
        (vibe_summaries (run_db (scrape_and_store_reviews g (app_db s) place_id nm gu tu)))) \<le> 1
   \<and> (place_id \<in> set (map v_place_id (vibe_summaries (app_db s))) \<longrightarrow>
        map v_id (vibe_summaries (run_db (scrape_and_store_reviews g (app_db s) place_id nm gu tu)))
          = map v_id (vibe_summaries (app_db s))
        \<and> map v_place_id (vibe_summaries (run_db (scrape_and_store_reviews g (app_db s) place_id nm gu tu)))
          = map v_place_id (vibe_summaries (app_db s)))
   \<and> (run_return (scrape_and_store_reviews g (app_db s) place_id nm gu tu) = Some (n, True)
        \<and> json_loads (summary_of_run g (app_db s) place_id gu tu) = Inr (JObj d) \<longrightarrow>
        (\<exists>row. select_vibe (run_db (scrape_and_store_reviews g (app_db s) place_id nm gu tu)) place_id
                 = Inr (Some row)
               \<and> bind_text_not_null (sqlite_real_text g)
                    (dict_get d (u ''summary'') (JStr (u ''No summary provided.'')))
                   = Inr (v_summary row)
               \<and> v_mood_tags row
                   = json_dumps (py_float_repr g) (dict_get d (u ''mood_tags'') (JArr []))
               \<and> v_key_themes row
                   = json_dumps (py_float_repr g) (dict_get d (u ''key_themes'') (JArr []))))
   \<and> (\<exists>new. reviews (run_db (scrape_and_store_reviews g (app_db s) place_id nm gu tu))
               = reviews (app_db s) @ new
             \<and> map r_content new = reviews_of_run g (app_db s) place_id gu tu
             \<and> list_all (\<lambda>r. r_place_id r = place_id) new
             \<and> (run_return (scrape_and_store_reviews g (app_db s) place_id nm gu tu) = Some (m, b)
                  \<longrightarrow> length new = m))"
proof -
  assume r: "reachable s"
  let ?R = "scrape_and_store_reviews g (app_db s) place_id nm gu tu"
  have d0: "distinct (map v_place_id (vibe_summaries (app_db s)))"
    using reachable_consistent [OF r] by (simp add: consistent_def)
  from run_result [of g "app_db s" place_id nm gu tu] obtain new where
    new: "reviews (run_db ?R) = reviews (app_db s) @ new"
      "list_all (\<lambda>r. r_place_id r = place_id) new"
      "map r_content new = reviews_of_run g (app_db s) place_id gu tu"
    and v: "(map v_place_id (vibe_summaries (run_db ?R)) = map v_place_id (vibe_summaries (app_db s))
              \<and> map v_id (vibe_summaries (run_db ?R)) = map v_id (vibe_summaries (app_db s)))
            \<or> (place_id \<notin> set (map v_place_id (vibe_summaries (app_db s)))
                \<and> map v_place_id (vibe_summaries (run_db ?R))
                    = map v_place_id (vibe_summaries (app_db s)) @ [place_id])"
    by blast
  have d1: "distinct (map v_place_id (vibe_summaries (run_db ?R)))"
    using v d0 by auto
  have c0: "length (filter (\<lambda>v. v_place_id v = k) (vibe_summaries (app_db s))) \<le> 1"
    by (rule distinct_map_filter_le1 [OF d0])
  have c1: "length (filter (\<lambda>v. v_place_id v = k) (vibe_summaries (run_db ?R))) \<le> 1"
    by (rule distinct_map_filter_le1 [OF d1])
  have same: "place_id \<in> set (map v_place_id (vibe_summaries (app_db s))) \<longrightarrow>
        map v_id (vibe_summaries (run_db ?R)) = map v_id (vibe_summaries (app_db s))
        \<and> map v_place_id (vibe_summaries (run_db ?R)) = map v_place_id (vibe_summaries (app_db s))"
    using v by blast
  have upd: "run_return ?R = Some (n, True)
        \<and> json_loads (summary_of_run g (app_db s) place_id gu tu) = Inr (JObj d) \<longrightarrow>
        (\<exists>row. select_vibe (run_db ?R) place_id = Inr (Some row)
               \<and> bind_text_not_null (sqlite_real_text g)
                    (dict_get d (u ''summary'') (JStr (u ''No summary provided.'')))
                   = Inr (v_summary row)
               \<and> v_mood_tags row
                   = json_dumps (py_float_repr g) (dict_get d (u ''mood_tags'') (JArr []))
               \<and> v_key_themes row
                   = json_dumps (py_float_repr g) (dict_get d (u ''key_themes'') (JArr [])))"
  proof
    assume a: "run_return ?R = Some (n, True)
        \<and> json_loads (summary_of_run g (app_db s) place_id gu tu) = Inr (JObj d)"
    then have up: "upsert_vibe_summary g (summary_of_run g (app_db s) place_id gu tu) place_id
               (fst (scrape_phase g (app_db s) place_id gu tu)) = Inr (run_db ?R)"
      using run_success by blast
    from upsert_success_stores [OF up] a
    show "\<exists>row. select_vibe (run_db ?R) place_id = Inr (Some row)
               \<and> bind_text_not_null (sqlite_real_text g)
                    (dict_get d (u ''summary'') (JStr (u ''No summary provided.'')))
                   = Inr (v_summary row)
               \<and> v_mood_tags row
                   = json_dumps (py_float_repr g) (dict_get d (u ''mood_tags'') (JArr []))
               \<and> v_key_themes row
                   = json_dumps (py_float_repr g) (dict_get d (u ''key_themes'') (JArr []))"
      by blast
  qed
  have cnt: "run_return ?R = Some (m, b) \<longrightarrow> length new = m"
  proof
    assume "run_return ?R = Some (m, b)"
    from run_return_count [OF this] have "m = length (map r_content new)"
      unfolding new(3) by blast
    then show "length new = m" by simp
  qed
  have add: "\<exists>new. reviews (run_db ?R) = reviews (app_db s) @ new
             \<and> map r_content new = reviews_of_run g (app_db s) place_id gu tu
             \<and> list_all (\<lambda>r. r_place_id r = place_id) new
             \<and> (run_return ?R = Some (m, b) \<longrightarrow> length new = m)"
    using new cnt by blast
  show ?thesis using c0 c1 same upd add by (intro conjI)
qed

theorem one_summary_per_place_witness:
  "reachable blue_cup_scraped
   \<and> 1 \<in> set (map v_place_id (vibe_summaries (app_db blue_cup_scraped)))
   \<and> length (reviews (app_db blue_cup_scraped)) = 2
   \<and> run_return (scrape_and_store_reviews (sample_env cozy_reply)
          (app_db blue_cup_scraped) 1 (u ''Blue Cup'') (Some (u ''https://maps.example/blue-cup'')) None)
       = Some (2, True)
   \<and> length (filter (\<lambda>v. v_place_id v = 1) (vibe_summaries (app_db blue_cup_scraped))) \<le> 1
   \<and> map v_id (vibe_summaries (run_db (scrape_and_store_reviews (sample_env cozy_reply)
          (app_db blue_cup_scraped) 1 (u ''Blue Cup'') (Some (u ''https://maps.example/blue-cup'')) None)))
       = map v_id (vibe_summaries (app_db blue_cup_scraped))
   \<and> (\<exists>new. reviews (run_db (scrape_and_store_reviews (sample_env cozy_reply)
          (app_db blue_cup_scraped) 1 (u ''Blue Cup'') (Some (u ''https://maps.example/blue-cup'')) None))
               = reviews (app_db blue_cup_scraped) @ new
             \<and> map r_content new = [u ''cozy and quiet'', u ''loud but fun'']
             \<and> list_all (\<lambda>r. r_place_id r = 1) new
             \<and> length new = 2)"
proof -
  let ?g = "Some (u ''https://maps.example/blue-cup'')"
  let ?R = "scrape_and_store_reviews (sample_env cozy_reply)
          (app_db blue_cup_scraped) 1 (u ''Blue Cup'') ?g None"
  have e: "1 \<in> set (map v_place_id (vibe_summaries (app_db blue_cup_scraped)))" by code_simp
  have l: "length (reviews (app_db blue_cup_scraped)) = 2" by code_simp
  have t: "run_return ?R = Some (2, True)" by code_simp
  have c: "reviews_of_run (sample_env cozy_reply) (app_db blue_cup_scraped) 1 ?g None
           = [u ''cozy and quiet'', u ''loud but fun'']" by code_simp
  note inst = one_summary_per_place [OF reachable_blue_cup_scraped, of 1 "sample_env cozy_reply" 1
        "u ''Blue Cup''" ?g None 2 "[]" 2 True]
  have c0: "length (filter (\<lambda>v. v_place_id v = 1) (vibe_summaries (app_db blue_cup_scraped))) \<le> 1"
    using inst by (rule conjunct1)
  have ids: "map v_id (vibe_summaries (run_db ?R))
       = map v_id (vibe_summaries (app_db blue_cup_scraped))"
    using inst [THEN conjunct2, THEN conjunct2, THEN conjunct1] e by (simp only: simp_thms)
  from inst [THEN conjunct2, THEN conjunct2, THEN conjunct2, THEN conjunct2]
  obtain new where new: "reviews (run_db ?R) = reviews (app_db blue_cup_scraped) @ new"
      "map r_content new = reviews_of_run (sample_env cozy_reply) (app_db blue_cup_scraped) 1 ?g None"
      "list_all (\<lambda>r. r_place_id r = 1) new"
      "run_return ?R = Some (2, True) \<longrightarrow> length new = 2"
    by (elim exE conjE)
  have len: "length new = 2" using new(4) t by (simp only: simp_thms)
  have add: "\<exists>new. reviews (run_db ?R) = reviews (app_db blue_cup_scraped) @ new
             \<and> map r_content new = [u ''cozy and quiet'', u ''loud but fun'']
             \<and> list_all (\<lambda>r. r_place_id r = 1) new
             \<and> length new = 2"
    using new(1,3) new(2) [unfolded c] len by (intro exI [of _ new] conjI)
  show ?thesis
    using reachable_blue_cup_scraped e l t c0 ids add by (intro conjI)
qed

section \<open>The extractors of the shipped module\<close>

text \<open>
  Claim C2 at a failing input. In the module as shipped, a run for place 1 with both URLs
  given calls two names that are not bound: each call raises \<open>NameError\<close>, which the
  \<open>except\<close> clause catches; no review row is inserted, \<open>all_reviews\<close> stays empty, the
  Summarizer is not called, and the run returns \<open>(0, False)\<close>.
\<close>

theorem shipped_run_collects_nothing:
  "scrape_and_store_reviews (shipped (Some (u ''sk-test'')) (\<lambda>request. Inr [cozy_reply])
        sample_float_text sample_float_text) init_db 1
     (u ''Blue Cup'') (Some (u ''https://maps.example/blue-cup''))
     (Some (u ''https://tripadvisor.example/blue-cup''))
   = \<lparr> run_db = init_db, run_requests = [],
       run_caught = [Raised ''NameError'' (u ''scrape_google_maps_reviews''),
                     Raised ''NameError'' (u ''scrape_tripadvisor_reviews'')],
       run_return = Some (0, False) \<rparr>"
  by code_simp

section \<open>Search\<close>

















end
